theory Spec2Isabelle
  imports Main "HOL-Library.Sublist"
begin

section \<open>Characters and strings\<close>

text \<open>
  A Python \<open>str\<close> is a sequence of Unicode code points. The model takes the code points
  U+0000 .. U+00FF, which are exactly the values of HOL's 8-bit \<open>char\<close>: \<open>CHR 0xFC\<close> is
  the code point U+00FC (u with diaeresis), not a byte of an encoding. Every key of the
  replacement table of \<open>clean_company_name\<close> lies in this range. The character classes
  below are the ones Python's \<open>re\<close> (on \<open>str\<close> patterns) and \<open>str\<close> methods use, restricted
  to this range.
\<close>

definition code_point :: "char \<Rightarrow> nat" where
  "code_point c = of_char c"

text \<open>\<open>\s\<close> and \<open>str.strip()\<close>: TAB..CR, FS..US, SPACE, NEL, NBSP.\<close>

definition py_isspace :: "char \<Rightarrow> bool" where
  "py_isspace c =
     (let n = code_point c
      in (9 \<le> n \<and> n \<le> 13) \<or> (28 \<le> n \<and> n \<le> 32) \<or> n = 133 \<or> n = 160)"

text \<open>\<open>\d\<close>: the decimal digits.\<close>

definition py_isdecimal :: "char \<Rightarrow> bool" where
  "py_isdecimal c = (let n = code_point c in 48 \<le> n \<and> n \<le> 57)"

text \<open>\<open>str.isdigit()\<close>: the decimal digits and the superscripts 2, 3 and 1.\<close>

definition py_isdigit :: "char \<Rightarrow> bool" where
  "py_isdigit c = (let n = code_point c in (48 \<le> n \<and> n \<le> 57) \<or> n = 178 \<or> n = 179 \<or> n = 185)"

text \<open>\<open>str.isalnum()\<close>: letters, digits and the numeric characters.\<close>

definition py_isalnum :: "char \<Rightarrow> bool" where
  "py_isalnum c =
     (let n = code_point c
      in (48 \<le> n \<and> n \<le> 57) \<or> (65 \<le> n \<and> n \<le> 90) \<or> (97 \<le> n \<and> n \<le> 122)
         \<or> n = 170 \<or> n = 178 \<or> n = 179 \<or> n = 181 \<or> n = 185 \<or> n = 186
         \<or> (188 \<le> n \<and> n \<le> 190) \<or> (192 \<le> n \<and> n \<le> 214)
         \<or> (216 \<le> n \<and> n \<le> 246) \<or> (248 \<le> n \<and> n \<le> 255))"

text \<open>\<open>\w\<close>: an alphanumeric character or the underscore.\<close>

definition py_isword :: "char \<Rightarrow> bool" where
  "py_isword c = (py_isalnum c \<or> c = CHR ''_'')"

text \<open>\<open>str.lower()\<close> on one character: A..Z and the upper-case letters U+00C0..U+00DE
  (U+00D7, the multiplication sign, apart) move up by 32.\<close>

definition py_lower :: "char \<Rightarrow> char" where
  "py_lower c =
     (let n = code_point c
      in if (65 \<le> n \<and> n \<le> 90) \<or> (192 \<le> n \<and> n \<le> 214) \<or> (216 \<le> n \<and> n \<le> 222)
         then char_of (n + 32) else c)"

definition lower :: "string \<Rightarrow> string" where
  "lower s = map py_lower s"

text \<open>\<open>s.strip()\<close> and \<open>s.strip(chars)\<close>: drop the characters of a class from both ends.\<close>

definition strip_with :: "(char \<Rightarrow> bool) \<Rightarrow> string \<Rightarrow> string" where
  "strip_with P s = rev (dropWhile P (rev (dropWhile P s)))"

definition strip :: "string \<Rightarrow> string" where
  "strip s = strip_with py_isspace s"

text \<open>\<open>s.split(sep)\<close> for a one-character separator: empty pieces are kept.\<close>

fun split_on :: "char \<Rightarrow> string \<Rightarrow> string list" where
  "split_on sep [] = [[]]"
| "split_on sep (c # cs) =
     (if c = sep then [] # split_on sep cs
      else (case split_on sep cs of
              [] \<Rightarrow> [[c]]
            | w # ws \<Rightarrow> (c # w) # ws))"

text \<open>\<open>sep.join(words)\<close>.\<close>

fun join :: "string \<Rightarrow> string list \<Rightarrow> string" where
  "join sep [] = []"
| "join sep [w] = w"
| "join sep (w # ws) = w @ sep @ join sep ws"

text \<open>\<open>s.replace(old, new)\<close>: every occurrence of \<open>old\<close>, left to right, without overlap;
  an empty \<open>old\<close> matches before every character and at the end.\<close>

function str_replace :: "string \<Rightarrow> string \<Rightarrow> string \<Rightarrow> string" where
  "str_replace old new [] = (if old = [] then new else [])"
| "str_replace old new (c # cs) =
     (if old = [] then new @ c # str_replace old new cs
      else if prefix old (c # cs) then new @ str_replace old new (drop (length old) (c # cs))
      else c # str_replace old new cs)"
  by pat_completeness auto
termination
  by (relation "measure (\<lambda>(old, new, s). length s)") (auto simp: neq_Nil_conv)

section \<open>Regular-expression substitutions of the source\<close>

text \<open>\<open>re.sub(r'[^...]', '', s)\<close>: delete every character outside the class \<open>keep\<close>.\<close>

definition re_sub_delete_outside :: "(char \<Rightarrow> bool) \<Rightarrow> string \<Rightarrow> string" where
  "re_sub_delete_outside keep s = filter keep s"

text \<open>\<open>re.sub(r'C+', '-', s)\<close> for a character class \<open>C\<close>: every maximal run of characters of
  the class becomes one hyphen.\<close>

function re_sub_runs :: "(char \<Rightarrow> bool) \<Rightarrow> string \<Rightarrow> string" where
  "re_sub_runs P [] = []"
| "re_sub_runs P (c # cs) =
     (if P c then CHR ''-'' # re_sub_runs P (dropWhile P cs) else c # re_sub_runs P cs)"
  by pat_completeness auto
termination
  by (relation "measure (\<lambda>(P, s). length s)")
     (auto simp: length_dropWhile_le less_Suc_eq_le)

text \<open>
  \<open>re.sub(rf'\b{re.escape(suffix)}\b', '', s, flags=re.IGNORECASE)\<close>: the pattern is the
  literal suffix between two word boundaries, compared ignoring case. A position is a
  word boundary when exactly one of its two neighbours is a \<open>\w\<close> character (the ends of
  the string count as non-word). The scan goes left to right over the original string;
  after a match it resumes behind the matched text. \<open>prevw\<close> tells whether the character
  before the current position is a word character.
\<close>

fun literal_ci :: "string \<Rightarrow> string \<Rightarrow> bool" where
  "literal_ci [] s = True"
| "literal_ci (p # ps) [] = False"
| "literal_ci (p # ps) (c # cs) = (py_lower c = py_lower p \<and> literal_ci ps cs)"

definition starts_word :: "string \<Rightarrow> bool" where
  "starts_word s = (case s of [] \<Rightarrow> False | c # _ \<Rightarrow> py_isword c)"

definition word_boundary :: "bool \<Rightarrow> string \<Rightarrow> bool" where
  "word_boundary prevw rest = (prevw \<noteq> starts_word rest)"

definition matches_here :: "string \<Rightarrow> bool \<Rightarrow> string \<Rightarrow> bool" where
  "matches_here sfx prevw s =
     (word_boundary prevw s \<and> literal_ci sfx s
      \<and> word_boundary (py_isword (last (take (length sfx) s))) (drop (length sfx) s))"

function re_sub_word :: "string \<Rightarrow> bool \<Rightarrow> string \<Rightarrow> string" where
  "re_sub_word sfx prevw [] = []"
| "re_sub_word sfx prevw (c # cs) =
     (if sfx \<noteq> [] \<and> matches_here sfx prevw (c # cs)
      then re_sub_word sfx (py_isword (last (take (length sfx) (c # cs))))
             (drop (length sfx) (c # cs))
      else c # re_sub_word sfx (py_isword c) cs)"
  by pat_completeness auto
termination
  by (relation "measure (\<lambda>(sfx, prevw, s). length s)") (auto simp: neq_Nil_conv)

section \<open>utils/validators.py: clean_company_name\<close>

definition legal_suffixes :: "string list" where
  "legal_suffixes =
     [''GmbH'', ''AG'', ''KG'', ''OHG'', ''e.V.'', ''e.K.'', ''UG'', ''Ltd.'', ''Inc.'',
      ''Corp.'', ''LLC'', ''Co.'', ''& Co.'', ''mbH'', ''gGmbH'']"

text \<open>A Python dict keeps its keys in the order of their first insertion; storing under a
  key that is present replaces the value and leaves the position. A dict display
  \<open>{k1: v1, k2: v2, ...}\<close> stores its pairs from left to right.\<close>

fun dict_set :: "('k \<times> 'v) list \<Rightarrow> 'k \<Rightarrow> 'v \<Rightarrow> ('k \<times> 'v) list" where
  "dict_set [] k v = [(k, v)]"
| "dict_set ((k', v') # d) k v =
     (if k' = k then (k', v) # d else (k', v') # dict_set d k v)"

definition dict_display :: "('k \<times> 'v) list \<Rightarrow> ('k \<times> 'v) list" where
  "dict_display kvs = foldl (\<lambda>d (k, v). dict_set d k v) [] kvs"

text \<open>The pairs of the \<open>replacements\<close> display as the source lists them; U+00FC occurs twice
  (with \<open>ue\<close> in the first row and with \<open>u\<close> in the sixth).\<close>

definition replacements_display :: "(string \<times> string) list" where
  "replacements_display =
     [([CHR 0xE4], ''ae''), ([CHR 0xF6], ''oe''), ([CHR 0xFC], ''ue''), ([CHR 0xDF], ''ss''),
      ([CHR 0xE1], ''a''), ([CHR 0xE0], ''a''), ([CHR 0xE2], ''a''), ([CHR 0xE3], ''a''),
      ([CHR 0xE9], ''e''), ([CHR 0xE8], ''e''), ([CHR 0xEA], ''e''), ([CHR 0xEB], ''e''),
      ([CHR 0xED], ''i''), ([CHR 0xEC], ''i''), ([CHR 0xEE], ''i''), ([CHR 0xEF], ''i''),
      ([CHR 0xF3], ''o''), ([CHR 0xF2], ''o''), ([CHR 0xF4], ''o''), ([CHR 0xF5], ''o''),
      ([CHR 0xFA], ''u''), ([CHR 0xF9], ''u''), ([CHR 0xFB], ''u''), ([CHR 0xFC], ''u''),
      ([CHR 0xF1], ''n''), ([CHR 0xE7], ''c'')]"

definition replacements :: "(string \<times> string) list" where
  "replacements = dict_display replacements_display"

definition strip_legal_suffixes :: "string \<Rightarrow> string" where
  "strip_legal_suffixes name =
     foldl (\<lambda>cleaned sfx. re_sub_word sfx False cleaned) name legal_suffixes"

definition apply_replacements :: "string \<Rightarrow> string" where
  "apply_replacements s =
     foldl (\<lambda>cleaned (char, replacement). str_replace char replacement cleaned) s replacements"

definition clean_company_name :: "string \<Rightarrow> string" where
  "clean_company_name name =
     (if name = [] then []
      else
        let cleaned = strip_legal_suffixes name;
            cleaned = re_sub_delete_outside
                        (\<lambda>c. py_isword c \<or> py_isspace c \<or> c = CHR ''-'') cleaned;
            cleaned = re_sub_runs py_isspace (strip cleaned);
            cleaned = lower cleaned;
            cleaned = apply_replacements cleaned;
            cleaned = re_sub_runs (\<lambda>c. c = CHR ''-'') cleaned;
            cleaned = strip_with (\<lambda>c. c = CHR ''-'') cleaned
        in cleaned)"

section \<open>utils/validators.py: normalize_phone_number\<close>

definition normalize_phone_number :: "string \<Rightarrow> string" where
  "normalize_phone_number phone =
     (if phone = [] then []
      else
        let normalized = re_sub_delete_outside (\<lambda>c. py_isdecimal c \<or> c = CHR ''+'') phone
        in if normalized \<noteq> [] \<and> \<not> prefix ''+'' normalized
           then (if prefix ''0'' normalized then ''+49'' @ drop 1 normalized
                 else ''+49'' @ normalized)
           else normalized)"

section \<open>The outside world\<close>

text \<open>Exceptions are values. Every constructor stands for an instance of a subclass of
  Python's \<open>Exception\<close>: \<open>Gaierror\<close> is \<open>socket.gaierror\<close>, \<open>OtherError\<close> any one that is
  neither a \<open>ValueError\<close>, an \<open>OverflowError\<close> nor a \<open>socket.gaierror\<close> (a timeout of the
  lookup among them).\<close>

datatype py_exception = ValueError string | OverflowError string | Gaierror | OtherError

text \<open>
  What the code takes from outside the repository:
  \<^item> \<open>set_order\<close>: the order in which iterating a Python \<open>set\<close> of strings yields its
    elements. A set is modelled by the list of its elements in the order of their first
    insertion; \<open>list(s)\<close> is \<open>set_order\<close> of that list. The order follows the strings' hash
    values, which CPython draws per process (\<open>PYTHONHASHSEED\<close>): one run of the program is
    one value of \<open>set_order\<close>.
  \<^item> \<open>validators_domain\<close>, \<open>validators_email\<close>, \<open>validators_url\<close>: the functions of the
    \<open>validators\<close> package, which return a truth value or raise.
  \<^item> \<open>gethostbyname\<close>: \<open>socket.gethostbyname\<close> under a default timeout; it returns an
    address or raises.
  \<^item> \<open>re_search\<close>: \<open>re.search\<close> for the patterns of the field extractor; it returns
    groups 1 and 2 of the first match, or nothing (the second component is not read for
    a pattern with one group).
\<close>

datatype pattern =
    PhoneInternational  \<comment> \<open>\<open>(\+?\d{1,3}[\s\-]?\(?\d{1,4}\)?[\s\-]?\d{1,4}[\s\-]?\d{1,9})\<close>, ignoring case\<close>
  | PhoneTel            \<comment> \<open>\<open>(Tel\.?\s*:?\s*\+?\d[\d\s\-\(\)]{7,})\<close>, ignoring case\<close>
  | PhoneTelefon        \<comment> \<open>\<open>(Telefon\s*:?\s*\+?\d[\d\s\-\(\)]{7,})\<close>, ignoring case\<close>
  | EmailPattern        \<comment> \<open>\<open>([a-zA-Z0-9._%+-]+@[a-zA-Z0-9.-]+\.[a-zA-Z]{2,})\<close>\<close>
  | BoothPattern        \<comment> \<open>\<open>(Stand|Booth|Halle)\s*:?\s*([A-Z]?\d+[A-Z]?\d*)\<close>, ignoring case\<close>
  | PostalPattern       \<comment> \<open>\<open>\b(\d{5})\b\<close>\<close>

record env =
  set_order :: "string list \<Rightarrow> string list"
  validators_domain :: "string \<Rightarrow> py_exception + bool"
  validators_email :: "string \<Rightarrow> py_exception + bool"
  validators_url :: "string \<Rightarrow> py_exception + bool"
  gethostbyname :: "int \<Rightarrow> string \<Rightarrow> py_exception + string"
  re_search :: "pattern \<Rightarrow> string \<Rightarrow> (string \<times> string) option"

text \<open>An iteration order yields every element of the set once.\<close>

definition iteration_order :: "(string list \<Rightarrow> string list) \<Rightarrow> bool" where
  "iteration_order f = (\<forall>s. distinct s \<longrightarrow> set (f s) = set s \<and> distinct (f s))"

text \<open>\<open>s.add(x)\<close> on the insertion list of a set.\<close>

definition set_add :: "'a \<Rightarrow> 'a list \<Rightarrow> 'a list" where
  "set_add x s = (if x \<in> set s then s else s @ [x])"

text \<open>\<open>xs[:k]\<close> for an integer \<open>k\<close>: a negative \<open>k\<close> counts from the end.\<close>

definition slice_to :: "int \<Rightarrow> 'a list \<Rightarrow> 'a list" where
  "slice_to k xs = (if 0 \<le> k then take (nat k) xs else take (length xs - nat (- k)) xs)"

text \<open>\<open>d.get(key, default)\<close> on an entry that may be missing.\<close>

definition get_default :: "'a option \<Rightarrow> 'a \<Rightarrow> 'a" where
  "get_default entry dflt = (case entry of None \<Rightarrow> dflt | Some v \<Rightarrow> v)"

section \<open>utils/validators.py: the validators and the DNS probe\<close>

text \<open>\<open>try: return external_validators.domain(domain)  except Exception: return False\<close>,
  and likewise for e-mail addresses and URLs.\<close>

definition validate_domain :: "env \<Rightarrow> string \<Rightarrow> bool" where
  "validate_domain w d = (case validators_domain w d of Inl e \<Rightarrow> False | Inr ok \<Rightarrow> ok)"

definition validate_email :: "env \<Rightarrow> string \<Rightarrow> bool" where
  "validate_email w email = (case validators_email w email of Inl e \<Rightarrow> False | Inr ok \<Rightarrow> ok)"

definition validate_url :: "env \<Rightarrow> string \<Rightarrow> bool" where
  "validate_url w url = (case validators_url w url of Inl e \<Rightarrow> False | Inr ok \<Rightarrow> ok)"

text \<open>\<open>socket.setdefaulttimeout\<close> on an integer number of seconds: it raises
  \<open>OverflowError\<close> when the number does not fit the C time type (from 9223372037 on, in
  either direction), and \<open>ValueError\<close> on any other negative number.\<close>

definition setdefaulttimeout :: "int \<Rightarrow> py_exception + unit" where
  "setdefaulttimeout timeout =
     (if timeout \<le> - 9223372037 \<or> 9223372037 \<le> timeout
      then Inl (OverflowError ''timestamp too large to convert to C _PyTime_t'')
      else if timeout < 0 then Inl (ValueError ''Timeout value out of range'')
      else Inr ())"

text \<open>The body of the \<open>try\<close> block of \<open>check_domain_availability\<close>, then its handlers:
  \<open>socket.gaierror\<close> gives \<open>available\<close>, any other exception \<open>error\<close>.\<close>

definition check_domain_availability :: "env \<Rightarrow> string \<Rightarrow> int \<Rightarrow> string" where
  "check_domain_availability w d timeout =
     (if \<not> validate_domain w d then ''error''
      else
        (case (case setdefaulttimeout timeout of
                 Inl e \<Rightarrow> Inl e
               | Inr u \<Rightarrow> gethostbyname w timeout d) of
           Inr address \<Rightarrow> ''taken''
         | Inl Gaierror \<Rightarrow> ''available''
         | Inl e \<Rightarrow> ''error''))"

section \<open>scraper/domain_generator.py\<close>

text \<open>The configuration dictionary \<open>self.config\<close> (the constructor puts \<open>DOMAIN_CONFIG\<close>
  there when it is given none); a key may be missing, and the code reads every key with
  \<open>get\<close> and a default.\<close>

record config =
  cfg_tlds :: "string list option"
  cfg_max_variants_per_company :: "int option"
  cfg_check_domain_availability :: "bool option"
  cfg_timeout_dns_check :: "int option"

definition common_words :: "string list" where
  "common_words =
     [''gmbh'', ''ag'', ''kg'', ''ohg'', ''ev'', ''ek'', ''ug'', ''ltd'', ''inc'',
      ''corp'', ''llc'', ''co'', ''company'', ''systems'', ''solutions'',
      ''services'', ''international'', ''group'', ''holding'', ''consulting'',
      ''engineering'', ''technology'', ''tech'', ''software'', ''digital'',
      ''and'', ''und'', ''the'', ''der'', ''die'', ''das'']"

definition create_short_variant :: "string \<Rightarrow> string" where
  "create_short_variant name =
     (let words = filter (\<lambda>word. lower word \<notin> set common_words) (split_on (CHR ''-'') name)
      in if words \<noteq> [] then join ''-'' words else name)"

text \<open>\<open>variants\<close> is the insertion list of the set; the result is
  \<open>list(variants)[:max_variants_per_company]\<close>.\<close>

definition variant_set :: "config \<Rightarrow> string \<Rightarrow> string list" where
  "variant_set cfg base_name =
     (let variants = set_add base_name [];
          no_hyphens = filter (\<lambda>c. c \<noteq> CHR ''-'') base_name;
          variants = (if no_hyphens \<noteq> [] \<and> no_hyphens \<noteq> base_name
                      then set_add no_hyphens variants else variants);
          words = filter (\<lambda>word. word \<noteq> []) (split_on (CHR ''-'') base_name);
          variants = (if length words > 1
                      then let abbreviation = concat (map (take 1) words)
                           in if length abbreviation \<ge> 2 then set_add abbreviation variants
                              else variants
                      else variants);
          short_variant = create_short_variant base_name;
          variants = (if short_variant \<noteq> [] \<and> short_variant \<noteq> base_name
                      then set_add short_variant variants else variants);
          variants = (if int (length variants) < get_default (cfg_max_variants_per_company cfg) 5
                      then foldl (\<lambda>vs num. set_add (base_name @ num) vs) variants
                             [''24'', ''365'', ''2024'']
                      else variants)
      in variants)"

definition generate_domain_variants :: "env \<Rightarrow> config \<Rightarrow> string \<Rightarrow> string list" where
  "generate_domain_variants w cfg company_name =
     (if company_name = [] then []
      else
        let base_name = clean_company_name company_name
        in if base_name = [] then []
           else slice_to (get_default (cfg_max_variants_per_company cfg) 5)
                  (set_order w (variant_set cfg base_name)))"

record domain_info =
  domain :: string
  variant :: string
  tld :: string
  status :: string

text \<open>
  The body of the inner loop of \<open>generate_full_domains\<close> for one variant and one TLD:
  \<open>Inr None\<close> is \<open>continue\<close>, \<open>Inr (Some info)\<close> is the entry appended, \<open>Inl e\<close> an exception
  that leaves the function. The callee of the \<open>try\<close> block is the parameter \<open>probe\<close>, which
  may raise, so that the handler is part of the model; the source calls
  \<open>check_domain_availability\<close> there.
\<close>

definition domain_entry ::
  "(string \<Rightarrow> int \<Rightarrow> py_exception + string) \<Rightarrow> env \<Rightarrow> config \<Rightarrow> string \<Rightarrow> string
     \<Rightarrow> py_exception + domain_info option" where
  "domain_entry probe w cfg v t =
     (let d = v @ t
      in if \<not> validate_domain w d then Inr None
         else
           let info = \<lparr>domain = d, variant = v, tld = t, status = ''unknown''\<rparr>
           in if get_default (cfg_check_domain_availability cfg) False
              then (case probe d (get_default (cfg_timeout_dns_check cfg) 5) of
                      Inr st \<Rightarrow> Inr (Some (info\<lparr>status := st\<rparr>))
                    | Inl e \<Rightarrow> Inr (Some (info\<lparr>status := ''error''\<rparr>)))
              else Inr (Some info))"

fun tld_loop ::
  "(string \<Rightarrow> int \<Rightarrow> py_exception + string) \<Rightarrow> env \<Rightarrow> config \<Rightarrow> string \<Rightarrow> string list
     \<Rightarrow> domain_info list \<Rightarrow> py_exception + domain_info list" where
  "tld_loop probe w cfg v [] domains = Inr domains"
| "tld_loop probe w cfg v (t # ts) domains =
     (case domain_entry probe w cfg v t of
        Inl e \<Rightarrow> Inl e
      | Inr None \<Rightarrow> tld_loop probe w cfg v ts domains
      | Inr (Some info) \<Rightarrow> tld_loop probe w cfg v ts (domains @ [info]))"

fun variant_loop ::
  "(string \<Rightarrow> int \<Rightarrow> py_exception + string) \<Rightarrow> env \<Rightarrow> config \<Rightarrow> string list \<Rightarrow> string list
     \<Rightarrow> domain_info list \<Rightarrow> py_exception + domain_info list" where
  "variant_loop probe w cfg [] ts domains = Inr domains"
| "variant_loop probe w cfg (v # vs) ts domains =
     (case tld_loop probe w cfg v ts domains of
        Inl e \<Rightarrow> Inl e
      | Inr domains' \<Rightarrow> variant_loop probe w cfg vs ts domains')"

definition generate_full_domains_with ::
  "(string \<Rightarrow> int \<Rightarrow> py_exception + string) \<Rightarrow> env \<Rightarrow> config \<Rightarrow> string
     \<Rightarrow> py_exception + domain_info list" where
  "generate_full_domains_with probe w cfg company_name =
     (let variants = generate_domain_variants w cfg company_name;
          tlds = get_default (cfg_tlds cfg) [''.de'', ''.com'']
      in variant_loop probe w cfg variants tlds [])"

definition generate_full_domains :: "env \<Rightarrow> config \<Rightarrow> string \<Rightarrow> py_exception + domain_info list" where
  "generate_full_domains w cfg company_name =
     generate_full_domains_with (\<lambda>d timeout. Inr (check_domain_availability w d timeout))
       w cfg company_name"

section \<open>Parsed documents\<close>

text \<open>
  The tree BeautifulSoup builds: a tag with its name, its attributes and its children, or
  a text string. The parsed page (the \<open>soup\<close>) is the tag at the root. The queries below
  are those the scraper uses: \<open>find_all\<close> and \<open>find\<close> look through the descendants of
  an element in document order (the element itself is not among them), \<open>get_text\<close> joins
  the text strings below an element, and \<open>select\<close> returns the descendants a CSS selector
  matches.
\<close>

datatype node = Tag string "(string \<times> string) list" "node list" | NavigableString string

fun descendants :: "node \<Rightarrow> node list" where
  "descendants (NavigableString s) = []"
| "descendants (Tag name attrs children) = concat (map (\<lambda>c. c # descendants c) children)"

fun all_strings :: "node \<Rightarrow> string list" where
  "all_strings (NavigableString s) = [s]"
| "all_strings (Tag name attrs children) = concat (map all_strings children)"

text \<open>\<open>element.get_text()\<close> and \<open>element.get_text(strip=True)\<close>: with \<open>strip\<close>, every string is
  stripped and the empty ones are left out.\<close>

definition get_text :: "node \<Rightarrow> string" where
  "get_text element = concat (all_strings element)"

definition get_text_strip :: "node \<Rightarrow> string" where
  "get_text_strip element = concat (filter (\<lambda>s. s \<noteq> []) (map strip (all_strings element)))"

fun tag_named :: "string list \<Rightarrow> node \<Rightarrow> bool" where
  "tag_named names (NavigableString s) = False"
| "tag_named names (Tag name attrs children) = (name \<in> set names)"

fun attr_value :: "string \<Rightarrow> node \<Rightarrow> string option" where
  "attr_value key (NavigableString s) = None"
| "attr_value key (Tag name attrs children) = map_of attrs key"

text \<open>The value of \<open>class\<close> is a list of tokens: the attribute split at white space.\<close>

fun split_ws :: "string \<Rightarrow> string \<Rightarrow> string list" where
  "split_ws cur [] = (if cur = [] then [] else [cur])"
| "split_ws cur (c # cs) =
     (if py_isspace c then (if cur = [] then split_ws [] cs else cur # split_ws [] cs)
      else split_ws (cur @ [c]) cs)"

definition class_tokens :: "node \<Rightarrow> string list" where
  "class_tokens element =
     (case attr_value ''class'' element of None \<Rightarrow> [] | Some v \<Rightarrow> split_ws [] v)"

text \<open>\<open>class_=re.compile(r'.*a.*|.*b.*', re.I)\<close>: some class token contains one of the
  (lower-case) words, ignoring case.\<close>

definition class_matches :: "string list \<Rightarrow> node \<Rightarrow> bool" where
  "class_matches needles element =
     list_ex (\<lambda>token. list_ex (\<lambda>needle. sublist needle (lower token)) needles)
       (class_tokens element)"

definition find_all :: "string list \<Rightarrow> (node \<Rightarrow> bool) \<Rightarrow> node \<Rightarrow> node list" where
  "find_all names extra element =
     filter (\<lambda>d. tag_named names d \<and> extra d) (descendants element)"

definition find :: "string list \<Rightarrow> (node \<Rightarrow> bool) \<Rightarrow> node \<Rightarrow> node option" where
  "find names extra element =
     (case find_all names extra element of [] \<Rightarrow> None | d # ds \<Rightarrow> Some d)"

text \<open>The two forms of CSS selector the scraper uses: \<open>.name\<close> (the element has the class)
  and \<open>[class*="text"]\<close> (the class attribute contains the text).\<close>

datatype selector = ClassIs string | ClassContains string

fun selector_matches :: "selector \<Rightarrow> node \<Rightarrow> bool" where
  "selector_matches sel (NavigableString s) = False"
| "selector_matches (ClassIs name) (Tag n attrs children) =
     (name \<in> set (class_tokens (Tag n attrs children)))"
| "selector_matches (ClassContains text) (Tag n attrs children) =
     list_ex (\<lambda>token. sublist text token) (class_tokens (Tag n attrs children))"

definition select :: "selector \<Rightarrow> node \<Rightarrow> node list" where
  "select sel soup = filter (selector_matches sel) (descendants soup)"

section \<open>scraper/k\_online\_scraper.py: locating the listings\<close>

definition company_selectors :: "selector list" where
  "company_selectors =
     [ClassIs ''exhibitor-item'', ClassIs ''company-item'', ClassIs ''listing-item'',
      ClassIs ''directory-entry'', ClassContains ''exhibitor'', ClassContains ''company'',
      ClassContains ''listing'']"

text \<open>The loop over the selectors. Beside the elements it returns the selectors it has
  passed to \<open>soup.select\<close>, in order: \<open>break\<close> ends the loop at the first selector with a
  match.\<close>

fun selector_loop :: "node \<Rightarrow> selector list \<Rightarrow> selector list \<Rightarrow> node list \<times> selector list" where
  "selector_loop soup [] tried = ([], tried)"
| "selector_loop soup (sel # sels) tried =
     (let elements = select sel soup
      in if elements \<noteq> [] then (elements, tried @ [sel])
         else selector_loop soup sels (tried @ [sel]))"

text \<open>\<open>re.search(r'\d{5}', text)\<close>: five decimal digits in a row.\<close>

fun has_five_digits :: "string \<Rightarrow> bool" where
  "has_five_digits [] = False"
| "has_five_digits (c # cs) =
     ((length (c # cs) \<ge> 5 \<and> list_all py_isdecimal (take 5 (c # cs))) \<or> has_five_digits cs)"

definition looks_like_listing :: "node \<Rightarrow> bool" where
  "looks_like_listing d =
     (let text = get_text_strip d
      in length text > 50
         \<and> list_ex (\<lambda>keyword. sublist keyword (lower text))
              [''gmbh'', ''ag'', ''kg'', ''ltd'', ''inc'', ''corp'']
         \<and> (has_five_digits text \<or> CHR ''@'' \<in> set text))"

definition locate_company_elements :: "node \<Rightarrow> node list \<times> selector list" where
  "locate_company_elements soup =
     (case selector_loop soup company_selectors [] of
        (company_elements, tried) \<Rightarrow>
          if company_elements = []
          then (filter looks_like_listing
                  (find_all [''div'', ''article'', ''section''] (\<lambda>d. True) soup), tried)
          else (company_elements, tried))"

section \<open>utils/validators.py: addresses and record validation\<close>

definition extract_postal_code :: "env \<Rightarrow> string \<Rightarrow> string option" where
  "extract_postal_code w address_text =
     (if address_text = [] then None
      else (case re_search w PostalPattern address_text of
              None \<Rightarrow> None
            | Some (group1, group2) \<Rightarrow> Some group1))"

text \<open>The loop that looks for the city: it stops at the first line that contains the
  postal code.\<close>

fun city_loop :: "string \<Rightarrow> string list \<Rightarrow> (string \<rightharpoonup> string) \<Rightarrow> (string \<rightharpoonup> string)" where
  "city_loop postal_code [] result = result"
| "city_loop postal_code (line # lines) result =
     (if sublist postal_code line
      then (let city_part = strip (str_replace postal_code [] line)
            in if city_part \<noteq> [] then result(''city'' \<mapsto> city_part) else result)
      else city_loop postal_code lines result)"

definition parse_address :: "env \<Rightarrow> string \<Rightarrow> (string \<rightharpoonup> string)" where
  "parse_address w address_text =
     (if address_text = [] then Map.empty
      else
        let postal_code = extract_postal_code w address_text;
            result = (case postal_code of
                        None \<Rightarrow> Map.empty
                      | Some pc \<Rightarrow> if pc \<noteq> [] then [''postal_code'' \<mapsto> pc] else Map.empty);
            lines = filter (\<lambda>line. line \<noteq> []) (map strip (split_on (CHR 0x0A) address_text))
        in if lines \<noteq> []
           then (let result = result(''address'' \<mapsto> hd lines)
                 in case postal_code of
                      None \<Rightarrow> result
                    | Some pc \<Rightarrow> if pc \<noteq> [] then city_loop pc lines result else result)
           else result)"

definition fields_mapping :: "string list" where
  "fields_mapping =
     [''address'', ''city'', ''country'', ''postal_code'', ''phone'', ''email'', ''website'',
      ''description'', ''industry'', ''booth_number'', ''contact_person'']"

definition validate_field ::
  "env \<Rightarrow> (string \<rightharpoonup> string) \<Rightarrow> (string \<rightharpoonup> string) \<Rightarrow> string \<Rightarrow> (string \<rightharpoonup> string)" where
  "validate_field w company_data validated_data field =
     (let v = get_default (company_data field) []
      in if v \<noteq> []
         then (if field = ''email'' \<and> \<not> validate_email w v then validated_data
               else if field = ''website'' \<and> \<not> validate_url w v then validated_data
               else validated_data(field \<mapsto> strip v))
         else validated_data)"

definition validate_company_data ::
  "env \<Rightarrow> (string \<rightharpoonup> string) \<Rightarrow> py_exception + (string \<rightharpoonup> string)" where
  "validate_company_data w company_data =
     (let company_name = strip (get_default (company_data ''company_name'') [])
      in if company_name \<noteq> []
         then Inr (foldl (validate_field w company_data) [''company_name'' \<mapsto> company_name]
                     fields_mapping)
         else Inl (ValueError ''Company name is required''))"

section \<open>scraper/k\_online\_scraper.py: the field extractor\<close>

definition K_ONLINE_BASE_URL :: string where
  "K_ONLINE_BASE_URL = ''https://www.k-online.de/vis/v1/de/directory/a''"

definition headings :: "string list" where
  "headings = [''h2'', ''h3'', ''h4'']"

fun strong_loop :: "node list \<Rightarrow> string option" where
  "strong_loop [] = None"
| "strong_loop (strong # strongs) =
     (let text = get_text_strip strong
      in if length text > 5 \<and> \<not> list_ex py_isdigit (take 5 text) then Some text
         else strong_loop strongs)"

text \<open>The value stored under \<open>company_name\<close>, if any.\<close>

definition extract_company_name :: "node \<Rightarrow> string option" where
  "extract_company_name element =
     (let name_element =
            (case find headings (class_matches [''name'', ''title'']) element of
               None \<Rightarrow> find headings (\<lambda>d. True) element
             | Some h \<Rightarrow> Some h)
      in case name_element of
           Some h \<Rightarrow> Some (get_text_strip h)
         | None \<Rightarrow> strong_loop (find_all [''strong''] (\<lambda>d. True) element))"

definition extract_address :: "env \<Rightarrow> node \<Rightarrow> (string \<rightharpoonup> string) \<Rightarrow> (string \<rightharpoonup> string)" where
  "extract_address w element company_data =
     (let address_text =
            concat (map (\<lambda>addr_text. addr_text @ [CHR 0x0A])
                      (filter (\<lambda>addr_text. addr_text \<noteq> [])
                         (map get_text_strip
                            (find_all [''p'', ''div''] (class_matches [''address'', ''contact''])
                               element))))
      in if address_text \<noteq> []
         then (company_data ++ parse_address w address_text)(''address'' \<mapsto> strip address_text)
         else company_data)"

fun phone_loop :: "env \<Rightarrow> string \<Rightarrow> pattern list \<Rightarrow> (string \<rightharpoonup> string) \<Rightarrow> (string \<rightharpoonup> string)" where
  "phone_loop w text_content [] company_data = company_data"
| "phone_loop w text_content (pat # pats) company_data =
     (case re_search w pat text_content of
        None \<Rightarrow> phone_loop w text_content pats company_data
      | Some (group1, group2) \<Rightarrow>
          (let phone = normalize_phone_number group1
           in if phone \<noteq> [] then company_data(''phone'' \<mapsto> phone)
              else phone_loop w text_content pats company_data))"

definition extract_email :: "env \<Rightarrow> string \<Rightarrow> (string \<rightharpoonup> string) \<Rightarrow> (string \<rightharpoonup> string)" where
  "extract_email w text_content company_data =
     (case re_search w EmailPattern text_content of
        None \<Rightarrow> company_data
      | Some (group1, group2) \<Rightarrow> company_data(''email'' \<mapsto> group1))"

fun website_loop :: "node list \<Rightarrow> (string \<rightharpoonup> string) \<Rightarrow> (string \<rightharpoonup> string)" where
  "website_loop [] company_data = company_data"
| "website_loop (link # links) company_data =
     (let href = get_default (attr_value ''href'' link) []
      in if prefix ''http'' href \<and> \<not> sublist ''k-online.de'' href
         then company_data(''website'' \<mapsto> href)
         else website_loop links company_data)"

definition extract_booth :: "env \<Rightarrow> string \<Rightarrow> (string \<rightharpoonup> string) \<Rightarrow> (string \<rightharpoonup> string)" where
  "extract_booth w text_content company_data =
     (case re_search w BoothPattern text_content of
        None \<Rightarrow> company_data
      | Some (group1, group2) \<Rightarrow> company_data(''booth_number'' \<mapsto> group2))"

fun industry_loop :: "node list \<Rightarrow> (string \<rightharpoonup> string) \<Rightarrow> (string \<rightharpoonup> string)" where
  "industry_loop [] company_data = company_data"
| "industry_loop (cat_elem # cat_elems) company_data =
     (let cat_text = get_text_strip cat_elem
      in if cat_text \<noteq> [] then company_data(''industry'' \<mapsto> cat_text)
         else industry_loop cat_elems company_data)"

text \<open>The body of the \<open>try\<close> block of \<open>_parse_company_from_element\<close>: \<open>Inr None\<close> is its
  \<open>return None\<close>, \<open>Inl e\<close> an exception raised inside it.\<close>

definition parse_company_body ::
  "env \<Rightarrow> node \<Rightarrow> string option \<Rightarrow> py_exception + (string \<rightharpoonup> string) option" where
  "parse_company_body w element source_url =
     (let company_data =
            (case extract_company_name element of
               None \<Rightarrow> Map.empty
             | Some name \<Rightarrow> [''company_name'' \<mapsto> name])
      in if get_default (company_data ''company_name'') [] = [] then Inr None
         else
           let company_data = extract_address w element company_data;
               text_content = get_text element;
               company_data =
                 phone_loop w text_content [PhoneInternational, PhoneTel, PhoneTelefon]
                   company_data;
               company_data = extract_email w text_content company_data;
               company_data =
                 website_loop
                   (find_all [''a''] (\<lambda>d. attr_value ''href'' d \<noteq> None) element) company_data;
               company_data = extract_booth w text_content company_data;
               company_data =
                 industry_loop
                   (find_all [''span'', ''div'']
                      (class_matches [''category'', ''industry'', ''sector'']) element)
                   company_data;
               company_data =
                 company_data(''source_url'' \<mapsto>
                   (case source_url of
                      None \<Rightarrow> K_ONLINE_BASE_URL
                    | Some url \<Rightarrow> if url \<noteq> [] then url else K_ONLINE_BASE_URL))
           in (case validate_company_data w company_data of
                 Inl e \<Rightarrow> Inl e
               | Inr validated_data \<Rightarrow> Inr (Some validated_data)))"

text \<open>\<open>except Exception: ... return None\<close>.\<close>

definition parse_company_from_element ::
  "env \<Rightarrow> node \<Rightarrow> string option \<Rightarrow> (string \<rightharpoonup> string) option" where
  "parse_company_from_element w element source_url =
     (case parse_company_body w element source_url of
        Inl e \<Rightarrow> None
      | Inr r \<Rightarrow> r)"

section \<open>config/settings.py and the worlds of the examples\<close>

definition DOMAIN_CONFIG :: config where
  "DOMAIN_CONFIG =
     \<lparr>cfg_tlds = Some [''.de'', ''.com'', ''.org'', ''.net'', ''.eu'', ''.at'', ''.ch''],
      cfg_max_variants_per_company = Some 5,
      cfg_check_domain_availability = Some False,
      cfg_timeout_dns_check = Some 5\<rparr>"

text \<open>A world for the examples: sets iterate in the given order, the validators accept
  what they are given, no host name resolves and no pattern matches.\<close>

definition example_env :: "(string list \<Rightarrow> string list) \<Rightarrow> env" where
  "example_env order =
     \<lparr>set_order = order,
      validators_domain = (\<lambda>d. Inr True),
      validators_email = (\<lambda>e. Inr True),
      validators_url = (\<lambda>u. Inr True),
      gethostbyname = (\<lambda>timeout host. Inl Gaierror),
      re_search = (\<lambda>pat text. None)\<rparr>"

text \<open>A page with a \<open>listing-item\<close> element followed by a \<open>company-item\<close> element.\<close>

definition listing_item_example :: node where
  "listing_item_example =
     Tag ''div'' [(''class'', ''listing-item'')] [Tag ''h2'' [] [NavigableString ''Beta AG'']]"

definition company_item_example :: node where
  "company_item_example =
     Tag ''div'' [(''class'', ''company-item'')] [Tag ''h3'' [] [NavigableString ''Acme GmbH'']]"

definition page_example :: node where
  "page_example = Tag ''[document]'' [] [listing_item_example, company_item_example]"

section \<open>Facts about characters and the string operations\<close>


lemma code_point_char_of: "n < 256 \<Longrightarrow> code_point (char_of n) = n"
  by (simp add: code_point_def)

lemma code_point_hyphen: "code_point (CHR ''-'') = 45"
  by (simp add: code_point_def)

lemma code_point_underscore: "code_point (CHR ''_'') = 95"
  by (simp add: code_point_def)

lemma code_point_inj: "code_point c = code_point d \<Longrightarrow> c = d"
  by (simp add: code_point_def)

lemma hyphen_not_space: "\<not> py_isspace (CHR ''-'')"
  by (simp add: py_isspace_def code_point_hyphen)

lemma word_not_space: "py_isword c \<Longrightarrow> \<not> py_isspace c"
  by (auto simp: py_isword_def py_isalnum_def py_isspace_def Let_def code_point_underscore)

lemma lower_hyphen: "py_lower (CHR ''-'') = CHR ''-''"
  by (simp add: py_lower_def code_point_hyphen)

lemma lower_idem: "py_lower (py_lower c) = py_lower c"
  by (auto simp: py_lower_def Let_def code_point_char_of)

lemma lower_word: "py_isword c \<Longrightarrow> py_isword (py_lower c)"
  by (auto simp: py_lower_def py_isword_def py_isalnum_def Let_def code_point_char_of)

lemma lower_not_space: "\<not> py_isspace c \<Longrightarrow> \<not> py_isspace (py_lower c)"
  by (auto simp: py_lower_def py_isspace_def Let_def code_point_char_of)

lemma lower_eq_hyphen: "py_lower c = CHR ''-'' \<Longrightarrow> c = CHR ''-''"
proof -
  assume a: "py_lower c = CHR ''-''"
  have "code_point (py_lower c) = 45" using a by (simp add: code_point_hyphen)
  then have "code_point c = 45"
    by (auto simp: py_lower_def Let_def code_point_char_of split: if_splits)
  then show ?thesis using code_point_inj[of c "CHR ''-''"] by (simp add: code_point_hyphen)
qed

subsection \<open>Stripping\<close>

lemma strip_with_sublist: "sublist (strip_with P s) s"
proof -
  have "suffix (dropWhile P s) s" by (rule suffix_dropWhile)
  moreover have "prefix (rev (dropWhile P (rev (dropWhile P s)))) (dropWhile P s)"
    using suffix_dropWhile[of P "rev (dropWhile P s)"] by (simp add: suffix_to_prefix)
  ultimately show ?thesis unfolding strip_with_def
    by (meson prefix_imp_sublist suffix_imp_sublist sublist_order.order_trans)
qed

lemma set_strip_with: "set (strip_with P s) \<subseteq> set s"
  using strip_with_sublist[of P s] by (rule set_mono_sublist)

lemma strip_with_last: "strip_with P s \<noteq> [] \<Longrightarrow> \<not> P (last (strip_with P s))"
  unfolding strip_with_def
  using hd_dropWhile[of P "rev (dropWhile P s)"] by (simp add: last_rev)

lemma strip_with_hd: "strip_with P s \<noteq> [] \<Longrightarrow> \<not> P (hd (strip_with P s))"
proof -
  assume ne: "strip_with P s \<noteq> []"
  let ?d = "dropWhile P s"
  have dne: "?d \<noteq> []"
  proof
    assume e: "?d = []"
    have "strip_with P s = []" unfolding strip_with_def e by simp
    with ne show False by simp
  qed
  then have nP: "\<not> P (hd ?d)" by (rule hd_dropWhile)
  have pre: "prefix (strip_with P s) ?d"
    using suffix_dropWhile[of P "rev ?d"] by (simp add: suffix_to_prefix strip_with_def)
  from pre ne have "hd (strip_with P s) = hd ?d"
    by (auto simp: prefix_def)
  with nP show ?thesis by simp
qed

lemma strip_with_id: "s = [] \<or> (\<not> P (hd s) \<and> \<not> P (last s)) \<Longrightarrow> strip_with P s = s"
proof (cases s)
  case Nil then show ?thesis by (simp add: strip_with_def)
next
  case (Cons a list)
  assume "s = [] \<or> (\<not> P (hd s) \<and> \<not> P (last s))"
  with Cons have h: "\<not> P a" and l: "\<not> P (last s)" by auto
  from h Cons have 1: "dropWhile P s = s" by simp
  have "hd (rev s) = last s" using Cons by (simp only: hd_rev)
  with l have 2: "dropWhile P (rev s) = rev s" by (simp only: dropWhile_eq_self_iff) simp
  show ?thesis by (simp add: strip_with_def 1 2)
qed

subsection \<open>Collapsing runs\<close>

lemma set_re_sub_runs: "set (re_sub_runs P s) \<subseteq> insert (CHR ''-'') {c \<in> set s. \<not> P c}"
proof (induction P s rule: re_sub_runs.induct)
  case (1 P) show ?case by simp
next
  case (2 P c cs)
  show ?case
  proof (cases "P c")
    case True
    with 2 have "set (re_sub_runs P (dropWhile P cs)) \<subseteq> insert (CHR ''-'') {c \<in> set (dropWhile P cs). \<not> P c}" by simp
    moreover have "set (dropWhile P cs) \<subseteq> set cs" by (auto dest: set_dropWhileD)
    ultimately show ?thesis using True by auto
  next
    case False
    with 2 show ?thesis by auto
  qed
qed

lemma re_sub_runs_id: "\<forall>c\<in>set s. \<not> P c \<Longrightarrow> re_sub_runs P s = s"
  by (induction s) auto

lemma re_sub_runs_hd: "\<not> P c \<Longrightarrow> re_sub_runs P (c # cs) = c # re_sub_runs P cs"
  by simp

lemma re_sub_hyphens_not_prefix:
  "s = [] \<or> hd s \<noteq> CHR ''-'' \<Longrightarrow> \<not> prefix ''-'' (re_sub_runs (\<lambda>c. c = CHR ''-'') s)"
  by (cases s) auto

lemma re_sub_hyphens_no_double: "\<not> sublist ''--'' (re_sub_runs (\<lambda>c. c = CHR ''-'') s)"
proof (induction "\<lambda>c. c = CHR ''-''" s rule: re_sub_runs.induct)
  case 1 show ?case by simp
next
  case (2 c cs)
  show ?case
  proof (cases "c = CHR ''-''")
    case True
    let ?d = "dropWhile (\<lambda>c. c = CHR ''-'') cs"
    have "?d = [] \<or> hd ?d \<noteq> CHR ''-''" using hd_dropWhile[of "\<lambda>c. c = CHR ''-''" cs] by auto
    then have "\<not> prefix ''-'' (re_sub_runs (\<lambda>c. c = CHR ''-'') ?d)" by (rule re_sub_hyphens_not_prefix)
    moreover have "\<not> sublist ''--'' (re_sub_runs (\<lambda>c. c = CHR ''-'') ?d)" using 2 True by simp
    ultimately show ?thesis using True by (simp add: sublist_Cons_right)
  next
    case False
    with 2 show ?thesis by (simp add: sublist_Cons_right)
  qed
qed

lemma re_sub_hyphens_id: "\<not> sublist ''--'' s \<Longrightarrow> re_sub_runs (\<lambda>c. c = CHR ''-'') s = s"
proof (induction s)
  case Nil show ?case by simp
next
  case (Cons c cs)
  then have ns: "\<not> sublist ''--'' cs" and np: "\<not> prefix ''--'' (c # cs)" by (auto simp: sublist_Cons_right)
  show ?case
  proof (cases "c = CHR ''-''")
    case True
    with np have "cs = [] \<or> hd cs \<noteq> CHR ''-''" by (cases cs) auto
    then have "dropWhile (\<lambda>c. c = CHR ''-'') cs = cs" by (cases cs) auto
    with True Cons.IH ns show ?thesis by simp
  next
    case False with Cons.IH ns show ?thesis by simp
  qed
qed


subsection \<open>The replacement table\<close>

lemma str_replace_char:
  "str_replace [k] v s = concat (map (\<lambda>c. if c = k then v else [c]) s)"
  by (induction s) auto

lemma replacements_eq:
  "replacements =
     [([CHR 0xE4], ''ae''), ([CHR 0xF6], ''oe''), ([CHR 0xFC], ''u''), ([CHR 0xDF], ''ss''),
      ([CHR 0xE1], ''a''), ([CHR 0xE0], ''a''), ([CHR 0xE2], ''a''), ([CHR 0xE3], ''a''),
      ([CHR 0xE9], ''e''), ([CHR 0xE8], ''e''), ([CHR 0xEA], ''e''), ([CHR 0xEB], ''e''),
      ([CHR 0xED], ''i''), ([CHR 0xEC], ''i''), ([CHR 0xEE], ''i''), ([CHR 0xEF], ''i''),
      ([CHR 0xF3], ''o''), ([CHR 0xF2], ''o''), ([CHR 0xF4], ''o''), ([CHR 0xF5], ''o''),
      ([CHR 0xFA], ''u''), ([CHR 0xF9], ''u''), ([CHR 0xFB], ''u''),
      ([CHR 0xF1], ''n''), ([CHR 0xE7], ''c'')]"
  by (simp add: replacements_def dict_display_def replacements_display_def)

lemma foldl_replace_pres:
  assumes "\<And>k v. (k, v) \<in> set rs \<Longrightarrow> \<exists>kc. k = [kc]"
    and "\<And>k v c. (k, v) \<in> set rs \<Longrightarrow> c \<in> set v \<Longrightarrow> Q c"
    and "\<And>c. c \<in> set s \<Longrightarrow> Q c"
  shows "\<forall>c\<in>set (foldl (\<lambda>cleaned (char, replacement). str_replace char replacement cleaned) s rs). Q c"
  using assms
proof (induction rs arbitrary: s)
  case Nil then show ?case by simp
next
  case (Cons r rs)
  obtain k v where r: "r = (k, v)" by (cases r)
  from Cons.prems(1)[of k v] obtain kc where k: "k = [kc]" by (auto simp: r)
  have v: "\<And>c. c \<in> set v \<Longrightarrow> Q c" using Cons.prems(2)[of k v] by (simp add: r)
  have 3: "\<And>c. c \<in> set (str_replace k v s) \<Longrightarrow> Q c"
    using Cons.prems(3) v by (auto simp: k str_replace_char split: if_splits)
  have 1: "\<exists>kc. k' = [kc]" if "(k', v') \<in> set rs" for k' v'
    using that Cons.prems(1)[of k' v'] by simp
  have 2: "Q c" if "(k', v') \<in> set rs" "c \<in> set v'" for k' v' c
    using that Cons.prems(2)[of k' v' c] by simp
  have "\<forall>c\<in>set (foldl (\<lambda>cleaned (char, replacement). str_replace char replacement cleaned)
                        (str_replace k v s) rs). Q c"
    by (rule Cons.IH[OF 1 2 3])
  then show ?case by (simp add: r)
qed

lemma foldl_replace_no_keys:
  assumes "\<And>k v. (k, v) \<in> set rs \<Longrightarrow> \<exists>kc. k = [kc]"
    and "\<And>k v c. (k, v) \<in> set rs \<Longrightarrow> c \<in> set v \<Longrightarrow> [c] \<notin> fst ` set rs \<and> c \<notin> B"
    and "set s \<inter> B = {}"
  shows "set (foldl (\<lambda>cleaned (char, replacement). str_replace char replacement cleaned) s rs)
           \<inter> (B \<union> {c. [c] \<in> fst ` set rs}) = {}"
  using assms
proof (induction rs arbitrary: s B)
  case Nil then show ?case by simp
next
  case (Cons r rs)
  obtain k v where r: "r = (k, v)" by (cases r)
  from Cons.prems(1)[of k v] obtain kc where k: "k = [kc]" by (auto simp: r)
  let ?s = "str_replace k v s" and ?B = "insert kc B"
  have v2: "\<And>c. c \<in> set v \<Longrightarrow> c \<noteq> kc \<and> c \<notin> B"
    using Cons.prems(2)[of k v] by (auto simp: r k)
  have 1: "set ?s \<inter> ?B = {}"
    using Cons.prems(3) v2 by (auto simp: k str_replace_char split: if_splits)
  have 2: "[c] \<notin> fst ` set rs \<and> c \<notin> ?B" if "(k', v') \<in> set rs" "c \<in> set v'" for k' v' c
  proof -
    from that Cons.prems(2)[of k' v' c] have "[c] \<notin> fst ` set (r # rs) \<and> c \<notin> B" by simp
    then show ?thesis by (auto simp: r k)
  qed
  have 3: "\<exists>kc. k' = [kc]" if "(k', v') \<in> set rs" for k' v'
    using that Cons.prems(1)[of k' v'] by simp
  have "set (foldl (\<lambda>cleaned (char, replacement). str_replace char replacement cleaned) ?s rs)
           \<inter> (?B \<union> {c. [c] \<in> fst ` set rs}) = {}"
    by (rule Cons.IH[OF 3 2 1])
  then show ?case by (auto simp: r k)
qed

lemma foldl_replace_id:
  assumes "\<And>k v. (k, v) \<in> set rs \<Longrightarrow> \<exists>kc. k = [kc] \<and> kc \<notin> set s"
  shows "foldl (\<lambda>cleaned (char, replacement). str_replace char replacement cleaned) s rs = s"
  using assms
proof (induction rs)
  case Nil then show ?case by simp
next
  case (Cons r rs)
  obtain k v where r: "r = (k, v)" by (cases r)
  from Cons.prems[of k v] obtain kc where k: "k = [kc]" and n: "kc \<notin> set s" by (auto simp: r)
  have "str_replace k v s = s" unfolding k str_replace_char using n by (induction s) auto
  moreover have "\<exists>kc. k' = [kc] \<and> kc \<notin> set s" if "(k', v') \<in> set rs" for k' v'
    using that Cons.prems[of k' v'] by simp
  then have "foldl (\<lambda>cleaned (char, replacement). str_replace char replacement cleaned) s rs = s"
    by (rule Cons.IH)
  ultimately show ?case by (simp add: r)
qed

section \<open>Facts about clean\_company\_name\<close>


lemma strip_legal_suffixes_Nil: "strip_legal_suffixes [] = []"
  by (simp add: strip_legal_suffixes_def legal_suffixes_def)

lemma clean_company_name_eq:
  "clean_company_name x =
     strip_with (\<lambda>c. c = CHR ''-'')
       (re_sub_runs (\<lambda>c. c = CHR ''-'')
          (apply_replacements
             (lower
                (re_sub_runs py_isspace
                   (strip
                      (re_sub_delete_outside (\<lambda>c. py_isword c \<or> py_isspace c \<or> c = CHR ''-'')
                         (strip_legal_suffixes x)))))))"
  by (cases "x = []")
     (simp_all add: clean_company_name_def Let_def strip_legal_suffixes_Nil
        re_sub_delete_outside_def strip_def strip_with_def lower_def apply_replacements_def
        replacements_eq)

lemma replacement_values:
  "(k, v) \<in> set replacements \<Longrightarrow> c \<in> set v \<Longrightarrow> c \<in> set ''aeouisnc''"
  by (auto simp: replacements_eq)

lemma replacement_keys: "(k, v) \<in> set replacements \<Longrightarrow> \<exists>kc. k = [kc]"
  by (auto simp: replacements_eq)

lemma replacement_values_no_key:
  "c \<in> set ''aeouisnc'' \<Longrightarrow> [c] \<notin> fst ` set replacements"
  by (auto simp: replacements_eq)

lemma replacement_values_word: "c \<in> set ''aeouisnc'' \<Longrightarrow> py_isword c \<and> py_lower c = c"
  by (auto simp: py_isword_def py_isalnum_def py_lower_def code_point_def)

lemma replaced_chars:
  assumes "c \<in> set (apply_replacements
             (lower
                (re_sub_runs py_isspace
                   (strip
                      (re_sub_delete_outside (\<lambda>c. py_isword c \<or> py_isspace c \<or> c = CHR ''-'')
                         u)))))"
  shows "(py_isword c \<or> c = CHR ''-'') \<and> py_lower c = c \<and> [c] \<notin> fst ` set replacements"
proof -
  let ?t2 = "strip (re_sub_delete_outside (\<lambda>c. py_isword c \<or> py_isspace c \<or> c = CHR ''-'') u)"
  let ?t3 = "re_sub_runs py_isspace ?t2"
  let ?t4 = "lower ?t3"
  have t2: "py_isword d \<or> py_isspace d \<or> d = CHR ''-''" if "d \<in> set ?t2" for d
  proof -
    from that have "d \<in> set (re_sub_delete_outside (\<lambda>c. py_isword c \<or> py_isspace c \<or> c = CHR ''-'') u)"
      unfolding strip_def using set_strip_with[of py_isspace] by blast
    then show ?thesis by (simp add: re_sub_delete_outside_def)
  qed
  have t3: "py_isword d \<or> d = CHR ''-''" if "d \<in> set ?t3" for d
    using that set_re_sub_runs[of py_isspace ?t2] t2 by auto
  have t4: "(py_isword d \<or> d = CHR ''-'') \<and> py_lower d = d" if "d \<in> set ?t4" for d
  proof -
    from that obtain e where e: "e \<in> set ?t3" and d: "d = py_lower e" by (auto simp: lower_def)
    from t3[OF e] have "py_isword d \<or> d = CHR ''-''"
      unfolding d using lower_word[of e] lower_hyphen by auto
    then show ?thesis by (simp add: d lower_idem)
  qed
  have a: "\<forall>c\<in>set (apply_replacements ?t4). (py_isword c \<or> c = CHR ''-'') \<and> py_lower c = c"
    unfolding apply_replacements_def
  proof (rule foldl_replace_pres)
    show "\<exists>kc. k = [kc]" if "(k, v) \<in> set replacements" for k v using that by (rule replacement_keys)
    show "(py_isword c \<or> c = CHR ''-'') \<and> py_lower c = c" if "(k, v) \<in> set replacements" "c \<in> set v" for k v c
      using replacement_values[OF that] replacement_values_word by blast
    show "(py_isword c \<or> c = CHR ''-'') \<and> py_lower c = c" if "c \<in> set ?t4" for c using t4[OF that] .
  qed
  have "set (apply_replacements ?t4) \<inter> ({} \<union> {c. [c] \<in> fst ` set replacements}) = {}"
    unfolding apply_replacements_def
  proof (rule foldl_replace_no_keys)
    show "\<exists>kc. k = [kc]" if "(k, v) \<in> set replacements" for k v using that by (rule replacement_keys)
    show "[c] \<notin> fst ` set replacements \<and> c \<notin> {}" if "(k, v) \<in> set replacements" "c \<in> set v" for k v c
      using replacement_values[OF that] replacement_values_no_key by blast
    show "set ?t4 \<inter> {} = {}" by simp
  qed
  with a assms show ?thesis by blast
qed

lemma clean_chars:
  assumes "c \<in> set (clean_company_name x)"
  shows "(py_isword c \<or> c = CHR ''-'') \<and> py_lower c = c \<and> [c] \<notin> fst ` set replacements"
proof -
  let ?t5 = "apply_replacements
             (lower
                (re_sub_runs py_isspace
                   (strip
                      (re_sub_delete_outside (\<lambda>c. py_isword c \<or> py_isspace c \<or> c = CHR ''-'')
                         (strip_legal_suffixes x)))))"
  have "c \<in> set (re_sub_runs (\<lambda>c. c = CHR ''-'') ?t5)"
    using assms set_strip_with[of "\<lambda>c. c = CHR ''-''"] unfolding clean_company_name_eq by blast
  then have "c = CHR ''-'' \<or> c \<in> set ?t5"
    using set_re_sub_runs[of "\<lambda>c. c = CHR ''-''" ?t5] by blast
  then show ?thesis
  proof
    assume "c = CHR ''-''"
    then show ?thesis by (auto simp: lower_hyphen replacements_eq)
  next
    assume "c \<in> set ?t5" then show ?thesis by (rule replaced_chars)
  qed
qed

lemma clean_no_double: "\<not> sublist ''--'' (clean_company_name x)"
  unfolding clean_company_name_eq
  using re_sub_hyphens_no_double strip_with_sublist sublist_order.order_trans by blast

lemma clean_hd: "clean_company_name x \<noteq> [] \<Longrightarrow> hd (clean_company_name x) \<noteq> CHR ''-''"
  unfolding clean_company_name_eq using strip_with_hd[of "\<lambda>c. c = CHR ''-''"] by blast

lemma clean_last: "clean_company_name x \<noteq> [] \<Longrightarrow> last (clean_company_name x) \<noteq> CHR ''-''"
  unfolding clean_company_name_eq using strip_with_last[of "\<lambda>c. c = CHR ''-''"] by blast


lemma clean_not_space: "c \<in> set (clean_company_name x) \<Longrightarrow> \<not> py_isspace c"
  using clean_chars[of c x] word_not_space hyphen_not_space by auto

section \<open>Facts about the domain generator\<close>

lemma domain_entry_Inr:
  "domain_entry probe w cfg v t = Inr (projr (domain_entry probe w cfg v t))"
  by (simp add: domain_entry_def Let_def split: sum.splits)

lemma tld_loop_eq:
  "tld_loop probe w cfg v ts domains =
     Inr (domains @ List.map_filter (\<lambda>t. projr (domain_entry probe w cfg v t)) ts)"
proof (induction ts arbitrary: domains)
  case Nil show ?case by (simp add: List.map_filter_simps)
next
  case (Cons t ts)
  show ?case
  proof (cases "projr (domain_entry probe w cfg v t)")
    case None
    with domain_entry_Inr[of probe w cfg v t] have "domain_entry probe w cfg v t = Inr None" by simp
    then show ?thesis using Cons None by (simp add: List.map_filter_simps)
  next
    case (Some info)
    with domain_entry_Inr[of probe w cfg v t] have "domain_entry probe w cfg v t = Inr (Some info)" by simp
    then show ?thesis using Cons Some by (simp add: List.map_filter_simps)
  qed
qed

lemma variant_loop_eq:
  "variant_loop probe w cfg vs ts domains =
     Inr (domains @ concat (map (\<lambda>v. List.map_filter (\<lambda>t. projr (domain_entry probe w cfg v t)) ts) vs))"
  by (induction vs arbitrary: domains) (simp_all add: tld_loop_eq)

lemma generate_full_domains_with_eq:
  "generate_full_domains_with probe w cfg company_name =
     Inr (concat (map (\<lambda>v. List.map_filter (\<lambda>t. projr (domain_entry probe w cfg v t))
                          (get_default (cfg_tlds cfg) [''.de'', ''.com'']))
                    (generate_domain_variants w cfg company_name)))"
  by (simp add: generate_full_domains_with_def variant_loop_eq)

lemma in_set_map_filter:
  "y \<in> set (List.map_filter f xs) \<longleftrightarrow> (\<exists>x\<in>set xs. f x = Some y)"
  by (induction xs) (auto split: option.splits)

lemma in_candidates_iff:
  "info \<in> set (concat (map (\<lambda>v. List.map_filter (\<lambda>t. projr (domain_entry probe w cfg v t)) ts) vs))
     \<longleftrightarrow> (\<exists>v\<in>set vs. \<exists>t\<in>set ts. domain_entry probe w cfg v t = Inr (Some info))"
proof -
  have "projr (domain_entry probe w cfg v t) = Some info \<longleftrightarrow> domain_entry probe w cfg v t = Inr (Some info)" for v t
    using domain_entry_Inr[of probe w cfg v t] by auto
  then show ?thesis by (simp add: in_set_map_filter)
qed

lemma domain_entry_status:
  assumes "domain_entry probe w cfg v t = Inr (Some info)"
  shows "domain info = v @ t \<and> variant info = v \<and> tld info = t
     \<and> status info =
        (if get_default (cfg_check_domain_availability cfg) False
         then (case probe (v @ t) (get_default (cfg_timeout_dns_check cfg) 5) of
                 Inl e \<Rightarrow> ''error'' | Inr st \<Rightarrow> st)
         else ''unknown'')"
  using assms by (auto simp: domain_entry_def Let_def split: if_splits sum.splits)

lemma iteration_order_length:
  assumes "iteration_order f" "distinct s"
  shows "length (f s) = length s"
proof -
  from assms have "set (f s) = set s" "distinct (f s)" by (auto simp: iteration_order_def)
  then show ?thesis using assms(2) by (metis distinct_card)
qed

lemma iteration_order_id: "iteration_order (\<lambda>s. s)"
  by (simp add: iteration_order_def)

lemma iteration_order_rev: "iteration_order rev"
  by (simp add: iteration_order_def)

lemma slice_to_all: "int (length xs) \<le> k \<Longrightarrow> slice_to k xs = xs"
  by (simp add: slice_to_def)

lemma clean_mustermann: "clean_company_name ''Mustermann GmbH'' = ''mustermann''"
  by code_simp

text \<open>What the DNS probe answers for a domain the validator accepts: an address means
  \<open>taken\<close>, \<open>socket.gaierror\<close> (the name does not resolve) means \<open>available\<close>, and every other
  exception, that of a timeout out of range among them, means \<open>error\<close>.\<close>

lemma check_domain_availability_outcomes:
  "check_domain_availability w d timeout =
     (if \<not> validate_domain w d \<or> timeout < 0 \<or> 9223372037 \<le> timeout then ''error''
      else (case gethostbyname w timeout d of
              Inr address \<Rightarrow> ''taken''
            | Inl e \<Rightarrow> if e = Gaierror then ''available'' else ''error''))"
  by (simp add: check_domain_availability_def setdefaulttimeout_def
      split: sum.splits py_exception.splits)

lemma domain_entry_valid:
  "domain_entry probe w cfg v t = Inr (Some info) \<Longrightarrow> validate_domain w (domain info)"
  by (auto simp: domain_entry_def Let_def split: if_splits sum.splits)

section \<open>Facts about the locator and the field extractor\<close>

lemma selector_loop_first_match:
  assumes "\<forall>s\<in>set pre. select s soup = []" and "select sel soup \<noteq> []"
  shows "selector_loop soup (pre @ sel # post) tried = (select sel soup, tried @ pre @ [sel])"
  using assms by (induction pre arbitrary: tried) (simp_all add: Let_def)

lemma selector_loop_no_match:
  assumes "\<forall>s\<in>set sels. select s soup = []"
  shows "selector_loop soup sels tried = ([], tried @ sels)"
  using assms by (induction sels arbitrary: tried) (simp_all add: Let_def)

lemma strip_nonempty_hd: "strip s \<noteq> [] \<Longrightarrow> \<not> py_isspace (hd (strip s))"
  unfolding strip_def by (rule strip_with_hd)

lemma strip_keeps_nonspace_hd:
  assumes "s \<noteq> []" "\<not> py_isspace (hd s)"
  shows "strip s \<noteq> []"
proof -
  from assms obtain c cs where s: "s = c # cs" and c: "\<not> py_isspace c" by (cases s) auto
  have "dropWhile py_isspace (rev cs @ [c]) \<noteq> []" using c by (simp add: dropWhile_append)
  then show ?thesis using c by (simp add: strip_def strip_with_def s)
qed

lemma get_text_strip_stripped:
  assumes "get_text_strip e \<noteq> []"
  shows "strip (get_text_strip e) \<noteq> []"
proof -
  let ?ps = "filter (\<lambda>s. s \<noteq> []) (map strip (all_strings e))"
  have "?ps \<noteq> []"
  proof
    assume e: "?ps = []"
    have "get_text_strip e = []" unfolding get_text_strip_def e by simp
    with assms show False by simp
  qed
  then obtain p ps where ps: "?ps = p # ps" by (cases ?ps) auto
  then have "p \<in> set ?ps" by simp
  then obtain s where p: "p = strip s" and ne: "p \<noteq> []" by auto
  from ne have "\<not> py_isspace (hd p)" unfolding p by (rule strip_nonempty_hd)
  moreover have "hd (get_text_strip e) = hd p" using ne by (simp add: get_text_strip_def ps)
  ultimately show ?thesis using assms by (intro strip_keeps_nonspace_hd) simp_all
qed

lemma strong_loop_Some: "strong_loop strongs = Some text \<Longrightarrow> text \<noteq> [] \<and> strip text \<noteq> []"
proof (induction strongs)
  case Nil then show ?case by simp
next
  case (Cons a strongs)
  show ?case
  proof (cases "length (get_text_strip a) > 5 \<and> \<not> list_ex py_isdigit (take 5 (get_text_strip a))")
    case True
    with Cons.prems have t: "text = get_text_strip a" by (simp add: Let_def)
    with True have "text \<noteq> []" by auto
    then show ?thesis using get_text_strip_stripped[of a] t by simp
  next
    case False
    with Cons show ?thesis by (auto simp: Let_def)
  qed
qed

lemma extract_company_name_stripped:
  assumes "extract_company_name element = Some name" "name \<noteq> []"
  shows "strip name \<noteq> []"
proof (cases "case find headings (class_matches [''name'', ''title'']) element of
               None \<Rightarrow> find headings (\<lambda>d. True) element
             | Some h \<Rightarrow> Some h")
  case None
  with assms(1) have "strong_loop (find_all [''strong''] (\<lambda>d. True) element) = Some name"
    by (simp add: extract_company_name_def Let_def)
  then show ?thesis using strong_loop_Some by blast
next
  case (Some h)
  with assms(1) have "name = get_text_strip h" by (simp add: extract_company_name_def Let_def)
  with assms(2) show ?thesis using get_text_strip_stripped[of h] by simp
qed

lemma city_loop_other: "k \<noteq> ''city'' \<Longrightarrow> city_loop pc lines result k = result k"
  by (induction lines) (simp_all add: Let_def)

lemma parse_address_name: "parse_address w address_text ''company_name'' = None"
  by (simp add: parse_address_def Let_def city_loop_other split: option.splits)

lemma extract_address_name:
  "extract_address w element company_data ''company_name'' = company_data ''company_name''"
  by (simp add: extract_address_def Let_def map_add_def parse_address_name)

lemma phone_loop_name:
  "phone_loop w text_content pats company_data ''company_name'' = company_data ''company_name''"
  by (induction pats) (simp_all add: Let_def split: option.splits)

lemma extract_email_name:
  "extract_email w text_content company_data ''company_name'' = company_data ''company_name''"
  by (simp add: extract_email_def split: option.splits)

lemma website_loop_name:
  "website_loop links company_data ''company_name'' = company_data ''company_name''"
  by (induction links) (simp_all add: Let_def)

lemma extract_booth_name:
  "extract_booth w text_content company_data ''company_name'' = company_data ''company_name''"
  by (simp add: extract_booth_def split: option.splits)

lemma industry_loop_name:
  "industry_loop cat_elems company_data ''company_name'' = company_data ''company_name''"
  by (induction cat_elems) (simp_all add: Let_def)

lemma validate_field_name:
  "''company_name'' \<noteq> field
   \<Longrightarrow> validate_field w company_data validated_data field ''company_name''
       = validated_data ''company_name''"
  by (auto simp: validate_field_def Let_def)

lemma foldl_validate_field_name:
  "''company_name'' \<notin> set fs
   \<Longrightarrow> foldl (validate_field w company_data) validated_data fs ''company_name''
       = validated_data ''company_name''"
  by (induction fs arbitrary: validated_data) (simp_all add: validate_field_name)

lemma validate_company_data_name:
  assumes "company_data ''company_name'' = Some name" "strip name \<noteq> []"
  shows "\<exists>validated. validate_company_data w company_data = Inr validated
            \<and> validated ''company_name'' = Some (strip name)"
proof -
  have "''company_name'' \<notin> set fields_mapping" by (simp add: fields_mapping_def)
  then show ?thesis
    using assms by (simp add: validate_company_data_def Let_def get_default_def
        foldl_validate_field_name)
qed

lemma parse_company_body_rejected:
  assumes "extract_company_name element = None \<or> extract_company_name element = Some []"
  shows "parse_company_body w element source_url = Inr None"
  using assms by (auto simp: parse_company_body_def get_default_def)

lemma parse_company_body_accepted:
  assumes "extract_company_name element = Some name" "name \<noteq> []"
  shows "\<exists>validated. parse_company_body w element source_url = Inr (Some validated)
            \<and> validated ''company_name'' = Some (strip name)"
proof -
  let ?cd0 = "[''company_name'' \<mapsto> name]"
  let ?text = "get_text element"
  let ?cd = "(industry_loop
                (find_all [''span'', ''div'']
                   (class_matches [''category'', ''industry'', ''sector'']) element)
                (extract_booth w ?text
                   (website_loop (find_all [''a''] (\<lambda>d. attr_value ''href'' d \<noteq> None) element)
                      (extract_email w ?text
                         (phone_loop w ?text [PhoneInternational, PhoneTel, PhoneTelefon]
                            (extract_address w element ?cd0))))))
             (''source_url'' \<mapsto>
                   (case source_url of
                      None \<Rightarrow> K_ONLINE_BASE_URL
                    | Some url \<Rightarrow> if url \<noteq> [] then url else K_ONLINE_BASE_URL))"
  have n: "?cd ''company_name'' = Some name"
    by (simp add: industry_loop_name extract_booth_name website_loop_name extract_email_name
        phone_loop_name extract_address_name del: phone_loop.simps)
  have s: "strip name \<noteq> []" using assms by (rule extract_company_name_stripped)
  from validate_company_data_name[of ?cd name w, OF n s] obtain validated
    where v: "validate_company_data w ?cd = Inr validated"
      and vn: "validated ''company_name'' = Some (strip name)" by blast
  have "parse_company_body w element source_url = Inr (Some validated)"
    using assms v by (simp add: parse_company_body_def get_default_def Let_def)
  with vn show ?thesis by blast
qed

section \<open>The name normalizer\<close>

text \<open>
  Claim C2. The spec expects the slug of "Mueller & Co. KG", written with u-umlaut
  (U+00FC), to contain \<open>mueller\<close> and not the suffix KG. The replacement table of the source
  names U+00FC twice, first with \<open>ue\<close> and later with \<open>u\<close>; the later value is the one the
  dict holds, so the slug is \<open>muller-co\<close>: it does not contain \<open>mueller\<close>. (The suffix KG
  is stripped, as the spec says.)
\<close>

theorem clean_company_name_mueller:
  "clean_company_name (CHR ''M'' # CHR 0xFC # ''ller & Co. KG'') = ''muller-co''
   \<and> \<not> sublist ''mueller'' (clean_company_name (CHR ''M'' # CHR 0xFC # ''ller & Co. KG''))"
  by code_simp

text \<open>
  Claim C3, as stated: \<open>normalize (normalize x) = normalize x\<close> for every \<open>x\<close>. It fails at
  \<open>A.G\<close>: no legal suffix matches the name, removing the dot gives the slug \<open>ag\<close>, and in
  that slug the suffix AG matches, so that the second pass returns the empty string.
\<close>

theorem clean_company_name_not_idempotent:
  "clean_company_name ''A.G'' = ''ag'' \<and> clean_company_name (clean_company_name ''A.G'') = []"
  by code_simp

text \<open>
  Claim C3, amended: for every name (of code points up to U+00FF), if none of the legal
  suffixes matches in the slug \<open>normalize x\<close>, that is, if the suffix-stripping step leaves
  the slug as it is, then \<open>normalize (normalize x) = normalize x\<close>.
\<close>

theorem clean_company_name_idempotent_without_suffix:
  assumes "strip_legal_suffixes (clean_company_name x) = clean_company_name x"
  shows "clean_company_name (clean_company_name x) = clean_company_name x"
proof -
  let ?y = "clean_company_name x"
  let ?H = "\<lambda>c. c = CHR ''-''"
  have ch: "(py_isword c \<or> c = CHR ''-'') \<and> py_lower c = c \<and> [c] \<notin> fst ` set replacements"
    if "c \<in> set ?y" for c using that by (rule clean_chars)
  have ns: "\<not> py_isspace c" if "c \<in> set ?y" for c using that by (rule clean_not_space)
  have 1: "re_sub_delete_outside (\<lambda>c. py_isword c \<or> py_isspace c \<or> c = CHR ''-'') ?y = ?y"
    unfolding re_sub_delete_outside_def filter_id_conv using ch by blast
  have 2: "strip ?y = ?y" unfolding strip_def
  proof (rule strip_with_id)
    show "?y = [] \<or> (\<not> py_isspace (hd ?y) \<and> \<not> py_isspace (last ?y))"
      using ns hd_in_set[of ?y] last_in_set[of ?y] by blast
  qed
  have 3: "re_sub_runs py_isspace ?y = ?y" using ns by (simp add: re_sub_runs_id)
  have 4: "lower ?y = ?y" unfolding lower_def by (rule map_idI) (use ch in blast)
  have 5: "apply_replacements ?y = ?y" unfolding apply_replacements_def
  proof (rule foldl_replace_id)
    fix k v assume m: "(k, v) \<in> set replacements"
    then obtain kc where k: "k = [kc]" using replacement_keys by blast
    have "kc \<notin> set ?y"
    proof
      assume "kc \<in> set ?y"
      from ch[OF this] have "[kc] \<notin> fst ` set replacements" by simp
      with m k show False by force
    qed
    with k show "\<exists>kc. k = [kc] \<and> kc \<notin> set ?y" by blast
  qed
  have 6: "re_sub_runs ?H ?y = ?y" using clean_no_double by (rule re_sub_hyphens_id)
  have 7: "strip_with ?H ?y = ?y"
  proof (rule strip_with_id)
    show "?y = [] \<or> (\<not> hd ?y = CHR ''-'' \<and> \<not> last ?y = CHR ''-'')"
      using clean_hd[of x] clean_last[of x] by blast
  qed
  show ?thesis
    by (subst clean_company_name_eq) (simp only: assms 1 2 3 4 5 6 7)
qed

theorem clean_company_name_idempotent_without_suffix_witness:
  "strip_legal_suffixes (clean_company_name ''Mustermann GmbH'') = clean_company_name ''Mustermann GmbH''
   \<and> clean_company_name ''Mustermann GmbH'' = ''mustermann''
   \<and> clean_company_name (clean_company_name ''Mustermann GmbH'') = ''mustermann''"
proof -
  note e = clean_mustermann
  have h: "strip_legal_suffixes ''mustermann'' = ''mustermann''" by code_simp
  show ?thesis
    using clean_company_name_idempotent_without_suffix[of "''Mustermann GmbH''"]
    unfolding e using h by simp
qed

text \<open>
  Claim C10. For every name, the slug contains no white space and no two hyphens in a
  row, and it neither starts nor ends with a hyphen; the empty name gives the empty slug.
\<close>

theorem clean_company_name_slug_shape:
  "(\<forall>c\<in>set (clean_company_name x). \<not> py_isspace c)
   \<and> \<not> sublist ''--'' (clean_company_name x)
   \<and> \<not> prefix ''-'' (clean_company_name x)
   \<and> \<not> suffix ''-'' (clean_company_name x)
   \<and> clean_company_name [] = []"
proof (intro conjI)
  show "\<forall>c\<in>set (clean_company_name x). \<not> py_isspace c" using clean_not_space by blast
  show "\<not> sublist ''--'' (clean_company_name x)" by (rule clean_no_double)
  show "\<not> prefix ''-'' (clean_company_name x)"
    using clean_hd[of x] by (cases "clean_company_name x") auto
  show "\<not> suffix ''-'' (clean_company_name x)"
    using clean_last[of x] by (auto simp: suffix_def)
  show "clean_company_name [] = []" by (simp add: clean_company_name_def)
qed

theorem clean_company_name_slug_shape_witness:
  "clean_company_name ''  Foo & Co. KG --x-- '' = ''foo-co-x''
   \<and> \<not> list_ex py_isspace ''foo-co-x''
   \<and> \<not> sublist ''--'' ''foo-co-x''
   \<and> \<not> prefix ''-'' ''foo-co-x''
   \<and> \<not> suffix ''-'' ''foo-co-x''"
proof -
  have e: "clean_company_name ''  Foo & Co. KG --x-- '' = ''foo-co-x''" by code_simp
  show ?thesis using clean_company_name_slug_shape[of "''  Foo & Co. KG --x-- ''"]
    unfolding e by (simp add: list_ex_iff)
qed

section \<open>The phone normalizer\<close>

text \<open>
  Claim C6, as stated: every character except the digits and a leading \<open>+\<close> is stripped.
  The source keeps every \<open>+\<close>, wherever it stands (its comment: "Remove all non-digit
  characters except +"), so \<open>1+2\<close> becomes \<open>+491+2\<close>, with a \<open>+\<close> behind the first
  character; and an input without any digit or \<open>+\<close> gives the empty string, not \<open>+49\<close>.
\<close>

theorem normalize_phone_number_keeps_inner_plus:
  "normalize_phone_number ''1+2'' = ''+491+2''
   \<and> \<not> list_all py_isdecimal (drop 1 (normalize_phone_number ''1+2''))
   \<and> normalize_phone_number ''abc'' = []"
  by code_simp

text \<open>
  Claim C6, amended: the phone normalizer keeps the decimal digits and every \<open>+\<close> and
  strips all other characters. If nothing is kept the result is empty; if the kept text
  starts with \<open>+\<close> it is the result; if it starts with \<open>0\<close>, that \<open>0\<close> is replaced by \<open>+49\<close>;
  otherwise \<open>+49\<close> is put in front. In particular \<open>030 1234567\<close> and \<open>+49 30 1234567\<close> both
  give \<open>+49301234567\<close>.
\<close>

theorem normalize_phone_number_cases:
  "(let kept = filter (\<lambda>c. py_isdecimal c \<or> c = CHR ''+'') phone
    in (kept = [] \<longrightarrow> normalize_phone_number phone = [])
     \<and> (prefix ''+'' kept \<longrightarrow> normalize_phone_number phone = kept)
     \<and> (prefix ''0'' kept \<longrightarrow> normalize_phone_number phone = ''+49'' @ drop 1 kept)
     \<and> (kept \<noteq> [] \<and> \<not> prefix ''+'' kept \<and> \<not> prefix ''0'' kept
          \<longrightarrow> normalize_phone_number phone = ''+49'' @ kept))
   \<and> normalize_phone_number ''030 1234567'' = ''+49301234567''
   \<and> normalize_phone_number ''+49 30 1234567'' = ''+49301234567''"
proof -
  have 1: "normalize_phone_number ''030 1234567'' = ''+49301234567''" by code_simp
  have 2: "normalize_phone_number ''+49 30 1234567'' = ''+49301234567''" by code_simp
  have 3: "filter (\<lambda>c. py_isdecimal c \<or> c = CHR ''+'') phone = [] \<Longrightarrow> normalize_phone_number phone = []"
    by (simp add: normalize_phone_number_def re_sub_delete_outside_def)
  have 4: "normalize_phone_number phone = filter (\<lambda>c. py_isdecimal c \<or> c = CHR ''+'') phone"
    if "prefix ''+'' (filter (\<lambda>c. py_isdecimal c \<or> c = CHR ''+'') phone)"
    using that by (auto simp: normalize_phone_number_def re_sub_delete_outside_def)
  have 5: "normalize_phone_number phone = ''+49'' @ drop 1 (filter (\<lambda>c. py_isdecimal c \<or> c = CHR ''+'') phone)"
    if "prefix ''0'' (filter (\<lambda>c. py_isdecimal c \<or> c = CHR ''+'') phone)"
    using that by (auto simp: normalize_phone_number_def re_sub_delete_outside_def prefix_def)
  have 6: "normalize_phone_number phone = ''+49'' @ filter (\<lambda>c. py_isdecimal c \<or> c = CHR ''+'') phone"
    if "filter (\<lambda>c. py_isdecimal c \<or> c = CHR ''+'') phone \<noteq> []"
       "\<not> prefix ''+'' (filter (\<lambda>c. py_isdecimal c \<or> c = CHR ''+'') phone)"
       "\<not> prefix ''0'' (filter (\<lambda>c. py_isdecimal c \<or> c = CHR ''+'') phone)"
    using that by (auto simp: normalize_phone_number_def re_sub_delete_outside_def)
  show ?thesis unfolding Let_def using 1 2 3 4 5 6 by blast
qed

theorem normalize_phone_number_cases_witness:
  "prefix ''0'' (filter (\<lambda>c. py_isdecimal c \<or> c = CHR ''+'') ''030 1234567'')
   \<and> normalize_phone_number ''030 1234567''
       = ''+49'' @ drop 1 (filter (\<lambda>c. py_isdecimal c \<or> c = CHR ''+'') ''030 1234567'')
   \<and> prefix ''+'' (filter (\<lambda>c. py_isdecimal c \<or> c = CHR ''+'') ''+49 30 1234567'')
   \<and> normalize_phone_number ''+49 30 1234567''
       = filter (\<lambda>c. py_isdecimal c \<or> c = CHR ''+'') ''+49 30 1234567''"
proof -
  have a: "filter (\<lambda>c. py_isdecimal c \<or> c = CHR ''+'') ''030 1234567'' = ''0301234567''" by code_simp
  have b: "filter (\<lambda>c. py_isdecimal c \<or> c = CHR ''+'') ''+49 30 1234567'' = ''+49301234567''" by code_simp
  show ?thesis
    using normalize_phone_number_cases[of "''030 1234567''"]
      normalize_phone_number_cases[of "''+49 30 1234567''"]
    unfolding Let_def a b by simp
qed

section \<open>The variant expander and the domain candidate builder\<close>

text \<open>
  Claim C1. For every iteration order of the variant set, and a domain validator that
  accepts \<open>mustermann.de\<close>: building the candidates of \<open>Mustermann GmbH\<close> with the TLDs
  \<open>.de\<close> and \<open>.com\<close>, at most 5 variants and no availability check returns a list that
  contains the candidate with variant \<open>mustermann\<close>, TLD \<open>.de\<close>, domain \<open>mustermann.de\<close>
  and status \<open>unknown\<close>. (The variant set has four elements, so nothing is cut off.)
\<close>

theorem generate_full_domains_mustermann:
  assumes order: "iteration_order (set_order w)"
    and valid: "validators_domain w ''mustermann.de'' = Inr True"
    and tlds: "cfg_tlds cfg = Some [''.de'', ''.com'']"
    and maxv: "cfg_max_variants_per_company cfg = Some 5"
    and check: "cfg_check_domain_availability cfg = Some False"
  shows "\<exists>ds. generate_full_domains w cfg ''Mustermann GmbH'' = Inr ds
     \<and> \<lparr>domain = ''mustermann.de'', variant = ''mustermann'', tld = ''.de'',
         status = ''unknown''\<rparr> \<in> set ds"
proof -
  let ?vs = "[''mustermann'', ''mustermann24'', ''mustermann365'', ''mustermann2024'']"
  let ?probe = "\<lambda>d timeout. Inr (check_domain_availability w d timeout)"
  let ?info = "\<lparr>domain = ''mustermann.de'', variant = ''mustermann'', tld = ''.de'',
                 status = ''unknown''\<rparr>"
  note e = clean_mustermann
  have sv: "create_short_variant ''mustermann'' = ''mustermann''" by code_simp
  have vs: "variant_set cfg ''mustermann'' = ?vs"
    by (simp add: variant_set_def Let_def set_add_def sv maxv get_default_def)
  have d: "distinct ?vs" by simp
  from order d have s: "set (set_order w ?vs) = set ?vs" unfolding iteration_order_def by blast
  have l: "length (set_order w ?vs) = 4" using iteration_order_length[OF order d] by simp
  have "int (length (set_order w ?vs)) \<le> 5" unfolding l by simp
  then have sl: "slice_to 5 (set_order w ?vs) = set_order w ?vs" by (rule slice_to_all)
  have g: "generate_domain_variants w cfg ''Mustermann GmbH'' = set_order w ?vs"
    unfolding generate_domain_variants_def e vs maxv get_default_def Let_def
    by (simp add: sl)
  have m: "''mustermann'' \<in> set (generate_domain_variants w cfg ''Mustermann GmbH'')"
    unfolding g s by simp
  have en: "domain_entry ?probe w cfg ''mustermann'' ''.de'' = Inr (Some ?info)"
    by (simp add: domain_entry_def validate_domain_def valid check get_default_def)
  have t: "''.de'' \<in> set (get_default (cfg_tlds cfg) [''.de'', ''.com''])"
    by (simp add: tlds get_default_def)
  from m t en have "?info \<in> set (concat (map (\<lambda>v. List.map_filter (\<lambda>t. projr (domain_entry ?probe w cfg v t))
                          (get_default (cfg_tlds cfg) [''.de'', ''.com'']))
                    (generate_domain_variants w cfg ''Mustermann GmbH'')))"
    unfolding in_candidates_iff by blast
  then show ?thesis
    unfolding generate_full_domains_def generate_full_domains_with_eq by blast
qed

theorem generate_full_domains_mustermann_witness:
  "iteration_order (set_order (example_env (\<lambda>s. s)))
   \<and> validators_domain (example_env (\<lambda>s. s)) ''mustermann.de'' = Inr True
   \<and> (\<exists>ds. generate_full_domains (example_env (\<lambda>s. s))
              \<lparr>cfg_tlds = Some [''.de'', ''.com''], cfg_max_variants_per_company = Some 5,
               cfg_check_domain_availability = Some False, cfg_timeout_dns_check = None\<rparr>
              ''Mustermann GmbH'' = Inr ds
         \<and> \<lparr>domain = ''mustermann.de'', variant = ''mustermann'', tld = ''.de'',
             status = ''unknown''\<rparr> \<in> set ds)"
proof -
  have o: "iteration_order (set_order (example_env (\<lambda>s. s)))"
    by (simp add: example_env_def iteration_order_id)
  have v: "validators_domain (example_env (\<lambda>s. s)) ''mustermann.de'' = Inr True"
    by (simp add: example_env_def)
  show ?thesis
    using o v generate_full_domains_mustermann[OF o v, of
        "\<lparr>cfg_tlds = Some [''.de'', ''.com''], cfg_max_variants_per_company = Some 5,
          cfg_check_domain_availability = Some False, cfg_timeout_dns_check = None\<rparr>"]
    by simp
qed

text \<open>
  Claim C4 says that the variants returned for a budget \<open>k \<ge> 1\<close> always contain the slug.
  The source adds the slug first, but then returns \<open>list(variants)[:k]\<close> of a \<open>set\<close>, whose
  order is the hash order. For \<open>Alpha Beta\<close> and the default budget 5 the set has six
  elements; under an iteration order that yields the slug last (here: the reverse of the
  insertion order, an iteration order by \<open>iteration_order_rev\<close>) the slug \<open>alpha-beta\<close> is
  the element cut off.
\<close>

theorem generate_domain_variants_drops_slug:
  "clean_company_name ''Alpha Beta'' = ''alpha-beta''
   \<and> variant_set DOMAIN_CONFIG ''alpha-beta''
       = [''alpha-beta'', ''alphabeta'', ''ab'', ''alpha-beta24'', ''alpha-beta365'',
          ''alpha-beta2024'']
   \<and> generate_domain_variants (example_env rev) DOMAIN_CONFIG ''Alpha Beta''
       = [''alpha-beta2024'', ''alpha-beta365'', ''alpha-beta24'', ''ab'', ''alphabeta'']
   \<and> ''alpha-beta'' \<notin> set (generate_domain_variants (example_env rev) DOMAIN_CONFIG ''Alpha Beta'')"
  by code_simp

text \<open>
  Claim C5 says that two runs on the same name and configuration give the same
  candidates in the same order, the variants being cut off in insertion order. In the
  source the order of the variants is the iteration order of a \<open>set\<close>: two runs that
  differ in it (here: insertion order and its reverse) return different candidates for
  \<open>Alpha Beta\<close>. (Within one run the candidates are emitted variant by variant and, for each
  variant, TLD by TLD: \<open>generate_full_domains_with_eq\<close>.)
\<close>

theorem generate_full_domains_two_runs:
  "map_sum id (map domain)
     (generate_full_domains (example_env (\<lambda>s. s)) (DOMAIN_CONFIG\<lparr>cfg_tlds := Some [''.de'']\<rparr>)
        ''Alpha Beta'')
     = Inr [''alpha-beta.de'', ''alphabeta.de'', ''ab.de'', ''alpha-beta24.de'',
            ''alpha-beta365.de'']
   \<and> map_sum id (map domain)
     (generate_full_domains (example_env rev) (DOMAIN_CONFIG\<lparr>cfg_tlds := Some [''.de'']\<rparr>)
        ''Alpha Beta'')
     = Inr [''alpha-beta2024.de'', ''alpha-beta365.de'', ''alpha-beta24.de'', ''ab.de'',
            ''alphabeta.de'']"
  by code_simp

text \<open>
  Claim C7, as stated: with the availability check enabled, any failure of the DNS probe
  gives the candidate the status \<open>error\<close>. In the source the probe is
  \<open>check_domain_availability\<close>, and a lookup that fails with \<open>socket.gaierror\<close> is its answer
  \<open>available\<close> (its docstring: "Returns: 'available', 'taken', 'error'"): when the lookup
  of \<open>mustermann.de\<close> raises \<open>socket.gaierror\<close>, the candidate's status is \<open>available\<close>.
\<close>

theorem generate_full_domains_gaierror_available:
  "gethostbyname (example_env (\<lambda>s. s)) 5 ''mustermann.de'' = Inl Gaierror
   \<and> generate_full_domains (example_env (\<lambda>s. s))
        \<lparr>cfg_tlds = Some [''.de''], cfg_max_variants_per_company = Some 1,
         cfg_check_domain_availability = Some True, cfg_timeout_dns_check = Some 5\<rparr>
        ''Mustermann GmbH''
       = Inr [\<lparr>domain = ''mustermann.de'', variant = ''mustermann'', tld = ''.de'',
               status = ''available''\<rparr>]"
  by code_simp

text \<open>
  Claim C7, amended: the builder always returns a list, no exception leaves it. With the
  availability check enabled, the status of every candidate is \<open>taken\<close> when the lookup of
  its domain returns an address, \<open>available\<close> when the lookup raises \<open>socket.gaierror\<close>,
  and \<open>error\<close> when the lookup raises any other exception or the configured timeout is
  out of range (negative, or from 9223372037 seconds on); and were the probe itself to
  raise, the builder would set \<open>error\<close>. With the check disabled every status is
  \<open>unknown\<close>.
\<close>

theorem generate_full_domains_statuses:
  "(\<exists>ds. generate_full_domains w cfg company_name = Inr ds
      \<and> (\<forall>info\<in>set ds.
            status info =
              (if get_default (cfg_check_domain_availability cfg) False
               then (if get_default (cfg_timeout_dns_check cfg) 5 < 0
                        \<or> 9223372037 \<le> get_default (cfg_timeout_dns_check cfg) 5
                     then ''error''
                     else (case gethostbyname w (get_default (cfg_timeout_dns_check cfg) 5)
                                 (domain info) of
                             Inr address \<Rightarrow> ''taken''
                           | Inl e \<Rightarrow> if e = Gaierror then ''available'' else ''error''))
               else ''unknown'')))
   \<and> (\<exists>ds. generate_full_domains_with probe w cfg company_name = Inr ds
      \<and> (\<forall>info\<in>set ds.
            status info =
              (if get_default (cfg_check_domain_availability cfg) False
               then (case probe (domain info) (get_default (cfg_timeout_dns_check cfg) 5) of
                       Inl e \<Rightarrow> ''error''
                     | Inr st \<Rightarrow> st)
               else ''unknown'')))"
proof -
  let ?ds = "\<lambda>p. concat (map (\<lambda>v. List.map_filter (\<lambda>t. projr (domain_entry p w cfg v t))
                            (get_default (cfg_tlds cfg) [''.de'', ''.com'']))
                      (generate_domain_variants w cfg company_name))"
  let ?check = "get_default (cfg_check_domain_availability cfg) False"
  let ?timeout = "get_default (cfg_timeout_dns_check cfg) 5"
  let ?real = "\<lambda>d timeout. Inr (check_domain_availability w d timeout)"
  have entry: "\<exists>v t. domain_entry p w cfg v t = Inr (Some info)" if "info \<in> set (?ds p)" for p info
    using that unfolding in_candidates_iff by blast
  have handler: "status info =
               (if ?check
                then (case p (domain info) ?timeout of Inl e \<Rightarrow> ''error'' | Inr st \<Rightarrow> st)
                else ''unknown'')" if "info \<in> set (?ds p)" for p info
  proof -
    from entry[OF that] obtain v t where "domain_entry p w cfg v t = Inr (Some info)" by blast
    from domain_entry_status[OF this] show ?thesis by simp
  qed
  have real: "status info =
               (if ?check
                then (if ?timeout < 0 \<or> 9223372037 \<le> ?timeout then ''error''
                      else (case gethostbyname w ?timeout (domain info) of
                              Inr address \<Rightarrow> ''taken''
                            | Inl e \<Rightarrow> if e = Gaierror then ''available'' else ''error''))
                else ''unknown'')" if "info \<in> set (?ds ?real)" for info
  proof -
    from entry[OF that] obtain v t where e: "domain_entry ?real w cfg v t = Inr (Some info)" by blast
    from domain_entry_valid[OF e] have v: "validate_domain w (domain info)" .
    from handler[OF that]
    have "status info = (if ?check then check_domain_availability w (domain info) ?timeout
                         else ''unknown'')" by simp
    then show ?thesis
      unfolding check_domain_availability_outcomes[of w "domain info" ?timeout] using v by simp
  qed
  have 1: "\<exists>ds. generate_full_domains w cfg company_name = Inr ds
      \<and> (\<forall>info\<in>set ds.
            status info =
              (if ?check
               then (if ?timeout < 0 \<or> 9223372037 \<le> ?timeout then ''error''
                     else (case gethostbyname w ?timeout (domain info) of
                             Inr address \<Rightarrow> ''taken''
                           | Inl e \<Rightarrow> if e = Gaierror then ''available'' else ''error''))
               else ''unknown''))"
    unfolding generate_full_domains_def generate_full_domains_with_eq using real by blast
  have 2: "\<exists>ds. generate_full_domains_with probe w cfg company_name = Inr ds
      \<and> (\<forall>info\<in>set ds.
            status info =
              (if ?check
               then (case probe (domain info) ?timeout of Inl e \<Rightarrow> ''error'' | Inr st \<Rightarrow> st)
               else ''unknown''))"
    unfolding generate_full_domains_with_eq using handler[of _ probe] by blast
  from 1 2 show ?thesis by (rule conjI)
qed

theorem generate_full_domains_statuses_witness:
  "\<exists>ds. generate_full_domains
          ((example_env (\<lambda>s. s))\<lparr>gethostbyname := (\<lambda>timeout host. Inl OtherError)\<rparr>)
          \<lparr>cfg_tlds = Some [''.de''], cfg_max_variants_per_company = Some 2,
           cfg_check_domain_availability = Some True, cfg_timeout_dns_check = None\<rparr>
          ''Mustermann GmbH'' = Inr ds
        \<and> map domain ds = [''mustermann.de'', ''mustermann24.de'']
        \<and> map status ds = [''error'', ''error'']"
proof -
  let ?w = "(example_env (\<lambda>s. s))\<lparr>gethostbyname := (\<lambda>timeout host. Inl OtherError)\<rparr>"
  let ?cfg = "\<lparr>cfg_tlds = Some [''.de''], cfg_max_variants_per_company = Some 2,
           cfg_check_domain_availability = Some True, cfg_timeout_dns_check = None\<rparr>"
  let ?r = "generate_full_domains ?w ?cfg ''Mustermann GmbH''"
  from generate_full_domains_statuses[of ?w ?cfg "''Mustermann GmbH''" "\<lambda>d timeout. Inl OtherError"]
  obtain ds where r: "?r = Inr ds"
    and st: "\<forall>info\<in>set ds. status info = ''error''" by (auto simp: get_default_def)
  have "map_sum id (map domain) ?r = Inr [''mustermann.de'', ''mustermann24.de'']" by code_simp
  with r have d: "map domain ds = [''mustermann.de'', ''mustermann24.de'']" by simp
  from d have "length (map domain ds) = 2" by simp
  then have "length ds = 2" by simp
  then obtain a b where ab: "ds = [a, b]"
    by (cases ds; cases "tl ds") auto
  with st have s: "map status ds = [''error'', ''error'']" by simp
  show ?thesis
  proof (intro exI conjI)
    show "?r = Inr ds" by (rule r)
    show "map domain ds = [''mustermann.de'', ''mustermann24.de'']" by (rule d)
    show "map status ds = [''error'', ''error'']" by (rule s)
  qed
qed

section \<open>The listing locator and the field extractor\<close>

text \<open>
  Claim C8. If the selector at position \<open>i\<close> of the fixed list is the first that matches
  an element of the page, the locator returns exactly the matches of that selector, and
  the selectors it has tried are the first \<open>i + 1\<close> of the list: no later selector is
  tried, and no match of a later selector is added.
\<close>

theorem locate_first_selector_wins:
  assumes "i < length company_selectors"
    and "\<forall>sel\<in>set (take i company_selectors). select sel soup = []"
    and "select (company_selectors ! i) soup \<noteq> []"
  shows "locate_company_elements soup
           = (select (company_selectors ! i) soup, take (Suc i) company_selectors)"
proof -
  let ?pre = "take i company_selectors" and ?sel = "company_selectors ! i"
    and ?post = "drop (Suc i) company_selectors"
  have split: "company_selectors = ?pre @ ?sel # ?post"
    using assms(1) by (simp add: id_take_nth_drop)
  have "selector_loop soup (?pre @ ?sel # ?post) [] = (select ?sel soup, [] @ ?pre @ [?sel])"
    using assms(2,3) by (rule selector_loop_first_match)
  then have "selector_loop soup company_selectors [] = (select ?sel soup, take (Suc i) company_selectors)"
    using split assms(1) by (simp add: take_Suc_conv_app_nth)
  then show ?thesis using assms(3) by (simp add: locate_company_elements_def)
qed

theorem locate_first_selector_wins_witness:
  "select (ClassIs ''exhibitor-item'') page_example = []
   \<and> select (ClassIs ''company-item'') page_example = [company_item_example]
   \<and> select (ClassIs ''listing-item'') page_example = [listing_item_example]
   \<and> locate_company_elements page_example
       = ([company_item_example], [ClassIs ''exhibitor-item'', ClassIs ''company-item''])"
proof -
  have a: "select (ClassIs ''exhibitor-item'') page_example = []" by code_simp
  have b: "select (ClassIs ''company-item'') page_example = [company_item_example]" by code_simp
  have c: "select (ClassIs ''listing-item'') page_example = [listing_item_example]" by code_simp
  have i: "(1::nat) < length company_selectors" by (simp add: company_selectors_def)
  have n: "company_selectors ! 1 = ClassIs ''company-item''" by (simp add: company_selectors_def)
  have t: "take 1 company_selectors = [ClassIs ''exhibitor-item'']" by (simp add: company_selectors_def)
  have t2: "take (Suc 1) company_selectors = [ClassIs ''exhibitor-item'', ClassIs ''company-item'']"
    by (simp add: company_selectors_def)
  have "locate_company_elements page_example
       = ([company_item_example], [ClassIs ''exhibitor-item'', ClassIs ''company-item''])"
    using locate_first_selector_wins[of 1 page_example] i
    unfolding n t t2 b by (simp add: a)
  with a b c show ?thesis by simp
qed

text \<open>
  Claim C9. The field extractor returns nothing exactly when the name heuristics find no
  name or an empty one; the body of its \<open>try\<close> block never raises; and whenever a
  non-empty name is found, a record is returned whose \<open>company_name\<close> is that name,
  stripped. An empty element and an element with white space only give nothing.
\<close>

theorem parse_company_absent_iff_no_name:
  "(parse_company_from_element w element source_url = None
      \<longleftrightarrow> (extract_company_name element = None \<or> extract_company_name element = Some []))
   \<and> (\<exists>r. parse_company_body w element source_url = Inr r)
   \<and> (\<forall>name. extract_company_name element = Some name \<and> name \<noteq> []
         \<longrightarrow> (\<exists>record. parse_company_from_element w element source_url = Some record
                  \<and> record ''company_name'' = Some (strip name)))"
proof (cases "extract_company_name element = None \<or> extract_company_name element = Some []")
  case True
  from parse_company_body_rejected[OF True, of w source_url]
  show ?thesis using True by (auto simp: parse_company_from_element_def)
next
  case False
  then obtain name where n: "extract_company_name element = Some name" "name \<noteq> []" by auto
  from parse_company_body_accepted[OF n, of w source_url] obtain validated
    where "parse_company_body w element source_url = Inr (Some validated)"
      and "validated ''company_name'' = Some (strip name)" by blast
  then show ?thesis using False n by (auto simp: parse_company_from_element_def)
qed

theorem parse_company_absent_iff_no_name_witness:
  "extract_company_name (Tag ''div'' [] [NavigableString ''   '']) = None
   \<and> parse_company_from_element (example_env (\<lambda>s. s)) (Tag ''div'' [] [NavigableString ''   ''])
        None = None
   \<and> extract_company_name (Tag ''div'' [] []) = None
   \<and> parse_company_from_element (example_env (\<lambda>s. s)) (Tag ''div'' [] []) None = None
   \<and> extract_company_name company_item_example = Some ''Acme GmbH''
   \<and> (\<exists>record. parse_company_from_element (example_env (\<lambda>s. s)) company_item_example None
                  = Some record
        \<and> record ''company_name'' = Some ''Acme GmbH'')"
proof -
  have a: "extract_company_name (Tag ''div'' [] [NavigableString ''   '']) = None" by code_simp
  have b: "extract_company_name (Tag ''div'' [] []) = None" by code_simp
  have c: "extract_company_name company_item_example = Some ''Acme GmbH''" by code_simp
  have s: "strip ''Acme GmbH'' = ''Acme GmbH''" by code_simp
  show ?thesis
    using parse_company_absent_iff_no_name[of "example_env (\<lambda>s. s)" "Tag ''div'' [] [NavigableString ''   '']" None]
      parse_company_absent_iff_no_name[of "example_env (\<lambda>s. s)" "Tag ''div'' [] []" None]
      parse_company_absent_iff_no_name[of "example_env (\<lambda>s. s)" company_item_example None]
    unfolding a b c by (simp add: s)
qed

end
